theory Spec2Isabelle
  imports Main "HOL-Library.Sublist"
begin

section \<open>Glance: the polling loop of glance.py\<close>

text \<open>
  The script polls a Selenium-driven browser for its current URL, and for every URL it
  has not yet processed it extracts the text of the page and asks a chat model for a
  summary. Every call that leaves the Python process (the driver, the chat client,
  \<^verbatim>\<open>time.sleep\<close>) is answered by the environment; the model takes these answers as
  input, one record per iteration of the loop, and returns the actions the program
  performs, in program order, together with the set \<^verbatim>\<open>processed_urls\<close>.

  Strings are byte lists (UTF-8); equality, emptiness and \<^verbatim>\<open>startswith\<close> on an ASCII
  prefix agree with Python's on code points. \<^verbatim>\<open>print\<close> is taken not to fail.
\<close>

subsection \<open>Exceptions and the answers of the environment\<close>

text \<open>
  The source names two exception classes: \<^verbatim>\<open>Exception\<close>, caught inside the loop, and
  \<^verbatim>\<open>KeyboardInterrupt\<close>, which is not a subclass of \<^verbatim>\<open>Exception\<close> and is caught only at
  the entry point. An \<^verbatim>\<open>Exception\<close> carries the text that \<^verbatim>\<open>str(e)\<close> gives.
\<close>

datatype exc = Exception string | KeyboardInterrupt

datatype 'a call_result = Returns 'a | Raises exc

text \<open>\<^verbatim>\<open>time.sleep\<close> with a constant argument either returns or is interrupted.\<close>

datatype sleep_result = Slept | Sleep_interrupted

text \<open>
  The answers to the calls of one iteration: \<^verbatim>\<open>driver.current_url\<close>,
  \<^verbatim>\<open>driver.get(url)\<close>, \<^verbatim>\<open>time.sleep(2)\<close>, \<^verbatim>\<open>driver.find_element(By.TAG_NAME, "body")\<close>,
  \<^verbatim>\<open>body.text\<close>, \<^verbatim>\<open>client.chat.completions.create(...)\<close> (the contents of the messages
  of \<^verbatim>\<open>response.choices\<close>) and the \<^verbatim>\<open>time.sleep(5)\<close> that ends the iteration.
\<close>

record tick_env =
  r_current_url :: "string call_result"
  r_get :: "unit call_result"
  r_sleep2 :: sleep_result
  r_find_element :: "unit call_result"
  r_text :: "string call_result"
  r_create :: "string list call_result"
  r_sleep5 :: sleep_result

subsection \<open>Actions\<close>

record message =
  role :: string
  content :: string

datatype action =
    Current_url
  | Get string
  | Find_element
  | Text
  | Create string "message list"
  | Print string
  | Sleep nat
  | Add string
  | Quit

datatype control = Continue | Propagate exc

datatype status = Running | Exited exc

subsection \<open>extract\_text\_from\_url and summarize\_text\<close>

definition extract_text_from_url :: "string \<Rightarrow> tick_env \<Rightarrow> action list \<times> string call_result" where
  "extract_text_from_url url env =
     (case r_get env of
        Raises e \<Rightarrow> ([Get url], Raises e)
      | Returns _ \<Rightarrow>
          (case r_sleep2 env of
             Sleep_interrupted \<Rightarrow> ([Get url, Sleep 2], Raises KeyboardInterrupt)
           | Slept \<Rightarrow>
               (case r_find_element env of
                  Raises e \<Rightarrow> ([Get url, Sleep 2, Find_element], Raises e)
                | Returns _ \<Rightarrow> ([Get url, Sleep 2, Find_element, Text], r_text env))))"

definition default_model :: string where
  "default_model = ''gpt-4''"

definition prompt :: "string \<Rightarrow> string" where
  "prompt text = ''Summarize this text:'' @ [CHR 0x0A] @ text"

text \<open>\<^verbatim>\<open>response.choices[0]\<close> raises IndexError on an empty list of choices.\<close>

definition summarize_text :: "string \<Rightarrow> string \<Rightarrow> tick_env \<Rightarrow> action list \<times> string call_result" where
  "summarize_text text model env =
     ([Create model [\<lparr>role = ''user'', content = prompt text\<rparr>]],
      (case r_create env of
         Raises e \<Rightarrow> Raises e
       | Returns choices \<Rightarrow>
           (case choices of
              [] \<Rightarrow> Raises (Exception ''list index out of range'')
            | c # _ \<Rightarrow> Returns c)))"

subsection \<open>One iteration of the loop\<close>

text \<open>The lines the loop prints (the arguments of \<^verbatim>\<open>print\<close>, f-strings in the source).\<close>

definition url_error_line :: "string \<Rightarrow> string" where
  "url_error_line e = ''Error retrieving current URL: '' @ e"

definition processing_line :: "string \<Rightarrow> string" where
  "processing_line current_url = ''Processing new URL: '' @ current_url"

definition extract_error_line :: "string \<Rightarrow> string \<Rightarrow> string" where
  "extract_error_line current_url e =
     ''Error extracting text from '' @ [CHR 0x27] @ current_url @ [CHR 0x27] @ '': '' @ e"

definition summary_line :: "string \<Rightarrow> string" where
  "summary_line summary = ''Summary:'' @ [CHR 0x0A] @ summary @ [CHR 0x0A]"

definition summarize_error_line :: "string \<Rightarrow> string" where
  "summarize_error_line e = ''Error summarizing text: '' @ e"

text \<open>\<^verbatim>\<open>time.sleep(5)\<close> followed by \<^verbatim>\<open>continue\<close> (or by the end of the loop body).\<close>

definition sleep_continue :: "action list \<Rightarrow> string set \<Rightarrow> tick_env \<Rightarrow> action list \<times> string set \<times> control" where
  "sleep_continue acts processed_urls env =
     (case r_sleep5 env of
        Slept \<Rightarrow> (acts @ [Sleep 5], processed_urls, Continue)
      | Sleep_interrupted \<Rightarrow> (acts @ [Sleep 5], processed_urls, Propagate KeyboardInterrupt))"

definition tick :: "string set \<Rightarrow> tick_env \<Rightarrow> action list \<times> string set \<times> control" where
  "tick processed_urls env =
     (case r_current_url env of
        Raises (Exception e) \<Rightarrow>
          sleep_continue [Current_url, Print (url_error_line e)] processed_urls env
      | Raises KeyboardInterrupt \<Rightarrow> ([Current_url], processed_urls, Propagate KeyboardInterrupt)
      | Returns current_url \<Rightarrow>
          if current_url = [] \<or> prefix ''about:'' current_url then
            sleep_continue [Current_url] processed_urls env
          else if current_url \<notin> processed_urls then
            (let announce = [Current_url, Print (processing_line current_url)] in
             case extract_text_from_url current_url env of
               (ex, Raises (Exception e)) \<Rightarrow>
                 sleep_continue
                   (announce @ ex @ [Print (extract_error_line current_url e)])
                   processed_urls env
             | (ex, Raises KeyboardInterrupt) \<Rightarrow>
                 (announce @ ex, processed_urls, Propagate KeyboardInterrupt)
             | (ex, Returns extracted_text) \<Rightarrow>
                 (case summarize_text extracted_text default_model env of
                    (su, Raises (Exception e)) \<Rightarrow>
                      sleep_continue
                        (announce @ ex @ su @ [Print (summarize_error_line e)])
                        processed_urls env
                  | (su, Raises KeyboardInterrupt) \<Rightarrow>
                      (announce @ ex @ su, processed_urls, Propagate KeyboardInterrupt)
                  | (su, Returns summary) \<Rightarrow>
                      sleep_continue
                        (announce @ ex @ su @ [Print (summary_line summary), Add current_url])
                        (insert current_url processed_urls) env))
          else
            sleep_continue [Current_url] processed_urls env)"

subsection \<open>The loop, main and the entry point\<close>

text \<open>
  \<^verbatim>\<open>while True\<close> has no exit of its own. The loop is run on the answers of finitely many
  iterations: it is left by an exception (\<open>Exited\<close>), or it is still running when the
  answers are used up (\<open>Running\<close>).
\<close>

fun main_loop :: "string set \<Rightarrow> tick_env list \<Rightarrow> action list \<times> string set \<times> status" where
  "main_loop processed_urls [] = ([], processed_urls, Running)"
| "main_loop processed_urls (env # envs) =
     (case tick processed_urls env of
        (acts, processed_urls', Propagate e) \<Rightarrow> (acts, processed_urls', Exited e)
      | (acts, processed_urls', Continue) \<Rightarrow>
          (case main_loop processed_urls' envs of
             (acts', processed_urls'', st) \<Rightarrow> (acts @ acts', processed_urls'', st)))"

definition banner :: "action list" where
  "banner =
     [Print ([CHR 0x0A] @ ''Browser is open. Feel free to browse freely within the Selenium window.''),
      Print ''The script will automatically scrape and summarize the text of any new page you visit.'']"

definition main :: "tick_env list \<Rightarrow> action list \<times> string set \<times> status" where
  "main envs =
     (case main_loop {} envs of
        (acts, processed_urls, st) \<Rightarrow> (banner @ acts, processed_urls, st))"

text \<open>
  The entry point: \<^verbatim>\<open>try: main() except KeyboardInterrupt: print("Exiting...")
  finally: driver.quit()\<close>, applied to what main did. While main is running nothing
  else happens.
\<close>

definition entry_point :: "action list \<times> string set \<times> status \<Rightarrow> action list" where
  "entry_point r =
     (case r of
        (acts, _, Running) \<Rightarrow> acts
      | (acts, _, Exited KeyboardInterrupt) \<Rightarrow> acts @ [Print ''Exiting...'', Quit]
      | (acts, _, Exited (Exception e)) \<Rightarrow> acts @ [Quit])"

definition script_entry :: "tick_env list \<Rightarrow> action list" where
  "script_entry envs = entry_point (main envs)"

subsection \<open>KeyboardInterrupt between two statements\<close>

text \<open>
  Python raises KeyboardInterrupt in the main thread either inside a call that is under
  way (these are the answers \<open>Raises KeyboardInterrupt\<close> and \<open>Sleep_interrupted\<close> of the
  environment) or between two statements. Raised between two statements of the loop body
  it is caught by none of the loop's handlers, which are all \<^verbatim>\<open>except Exception\<close>: the
  iteration stops there, with the actions it has performed so far, and the exception
  leaves the loop.

  \<open>added\<close> is \<^verbatim>\<open>processed_urls\<close> after a list of actions. \<open>tick_async k\<close> is the iteration in
  which KeyboardInterrupt is raised after its first \<open>k\<close> actions and before the next; when
  the iteration has fewer than \<open>k + 1\<close> actions it ends before that point, and is the
  iteration itself. \<open>main_async envs env k\<close> is main run on \<open>envs\<close> and, when the loop is
  still running, one more iteration on \<open>env\<close> with that interrupt.
\<close>

fun added :: "action list \<Rightarrow> string set \<Rightarrow> string set" where
  "added [] processed_urls = processed_urls"
| "added (Add url # acts) processed_urls = added acts (insert url processed_urls)"
| "added (_ # acts) processed_urls = added acts processed_urls"

definition tick_async :: "nat \<Rightarrow> string set \<Rightarrow> tick_env \<Rightarrow> action list \<times> string set \<times> control" where
  "tick_async k processed_urls env =
     (case tick processed_urls env of
        (acts, processed_urls', c) \<Rightarrow>
          if k < length acts then
            (take k acts, added (take k acts) processed_urls, Propagate KeyboardInterrupt)
          else (acts, processed_urls', c))"

definition main_async :: "tick_env list \<Rightarrow> tick_env \<Rightarrow> nat \<Rightarrow> action list \<times> string set \<times> status" where
  "main_async envs env k =
     (case main envs of
        (acts, processed_urls, Exited e) \<Rightarrow> (acts, processed_urls, Exited e)
      | (acts, processed_urls, Running) \<Rightarrow>
          (case tick_async k processed_urls env of
             (acts', processed_urls', Propagate e) \<Rightarrow> (acts @ acts', processed_urls', Exited e)
           | (acts', processed_urls', Continue) \<Rightarrow> (acts @ acts', processed_urls', Running)))"

subsection \<open>Auxiliary definitions for the statements\<close>

text \<open>How the iteration's final \<^verbatim>\<open>time.sleep(5)\<close> leaves the loop body.\<close>

definition sleep_control :: "tick_env \<Rightarrow> control" where
  "sleep_control env =
     (case r_sleep5 env of Slept \<Rightarrow> Continue | Sleep_interrupted \<Rightarrow> Propagate KeyboardInterrupt)"

text \<open>An environment in which every call of the iteration succeeds.\<close>

definition ok_env :: "string \<Rightarrow> string \<Rightarrow> string \<Rightarrow> tick_env" where
  "ok_env url text summary =
     \<lparr>r_current_url = Returns url, r_get = Returns (), r_sleep2 = Slept,
      r_find_element = Returns (), r_text = Returns text, r_create = Returns [summary],
      r_sleep5 = Slept\<rparr>"

text \<open>None of the calls of the iteration is interrupted.\<close>

definition interrupt_free :: "tick_env \<Rightarrow> bool" where
  "interrupt_free env \<longleftrightarrow>
     r_current_url env \<noteq> Raises KeyboardInterrupt \<and>
     r_get env \<noteq> Raises KeyboardInterrupt \<and>
     r_sleep2 env \<noteq> Sleep_interrupted \<and>
     r_find_element env \<noteq> Raises KeyboardInterrupt \<and>
     r_text env \<noteq> Raises KeyboardInterrupt \<and>
     r_create env \<noteq> Raises KeyboardInterrupt \<and>
     r_sleep5 env \<noteq> Sleep_interrupted"

text \<open>The environment answers the call behind an action with a KeyboardInterrupt.\<close>

fun interrupts :: "tick_env \<Rightarrow> action \<Rightarrow> bool" where
  "interrupts env Current_url = (r_current_url env = Raises KeyboardInterrupt)"
| "interrupts env (Get _) = (r_get env = Raises KeyboardInterrupt)"
| "interrupts env (Sleep n) =
     (if n = 2 then r_sleep2 env = Sleep_interrupted else r_sleep5 env = Sleep_interrupted)"
| "interrupts env Find_element = (r_find_element env = Raises KeyboardInterrupt)"
| "interrupts env Text = (r_text env = Raises KeyboardInterrupt)"
| "interrupts env (Create _ _) = (r_create env = Raises KeyboardInterrupt)"
| "interrupts env (Print _) = False"
| "interrupts env (Add _) = False"
| "interrupts env Quit = False"

text \<open>Extraction and summarization succeed, and the final sleep is not interrupted.\<close>

definition succeeds :: "tick_env \<Rightarrow> bool" where
  "succeeds env \<longleftrightarrow>
     r_get env = Returns () \<and> r_sleep2 env = Slept \<and> r_find_element env = Returns () \<and>
     (case r_text env of Returns _ \<Rightarrow> True | Raises _ \<Rightarrow> False) \<and>
     (case r_create env of Returns (_ # _) \<Rightarrow> True | _ \<Rightarrow> False) \<and>
     r_sleep5 env = Slept"

text \<open>Calls of the summarizer and of \<^verbatim>\<open>driver.get\<close> among the actions.\<close>

fun is_Create :: "action \<Rightarrow> bool" where
  "is_Create (Create _ _) = True"
| "is_Create _ = False"

fun is_Get :: "action \<Rightarrow> bool" where
  "is_Get (Get _) = True"
| "is_Get _ = False"

section \<open>Properties of one iteration and of the loop\<close>

subsection \<open>The final sleep, the extraction and the summarization\<close>

lemma sleep_continue_eq: "sleep_continue acts P env = (acts @ [Sleep 5], P, sleep_control env)"
  by (simp add: sleep_continue_def sleep_control_def split: sleep_result.splits)

lemma sleep_control_cases:
  "sleep_control env = Continue \<or> sleep_control env = Propagate KeyboardInterrupt \<and> \<not> interrupt_free env"
  by (simp add: sleep_control_def interrupt_free_def split: sleep_result.splits)

lemma extract_set:
  "extract_text_from_url url env = (ex, r) \<Longrightarrow> set ex \<subseteq> {Get url, Sleep 2, Find_element, Text}"
  by (auto simp: extract_text_from_url_def split: call_result.splits sleep_result.splits)

lemma extract_hd:
  "extract_text_from_url url env = (ex, r) \<Longrightarrow> \<exists>rest. ex = Get url # rest"
  by (auto simp: extract_text_from_url_def split: call_result.splits sleep_result.splits)

lemma extract_shape:
  "\<exists>rest. fst (extract_text_from_url url env) = Get url # rest \<and>
          set rest \<subseteq> {Sleep 2, Find_element, Text}"
  by (simp add: extract_text_from_url_def split: call_result.splits sleep_result.splits)

lemma extract_Returns:
  "extract_text_from_url url env = (ex, Returns t) \<Longrightarrow>
   ex = [Get url, Sleep 2, Find_element, Text] \<and> r_text env = Returns t"
  by (auto simp: extract_text_from_url_def split: call_result.splits sleep_result.splits)

lemma extract_Interrupt:
  "extract_text_from_url u env = (ex, Raises KeyboardInterrupt) \<Longrightarrow> \<not> interrupt_free env"
  by (auto simp: extract_text_from_url_def interrupt_free_def
      split: call_result.splits sleep_result.splits)

lemma summarize_fst:
  "summarize_text t m env = (su, r) \<Longrightarrow> su = [Create m [\<lparr>role = ''user'', content = prompt t\<rparr>]]"
  by (auto simp: summarize_text_def)

lemma summarize_Interrupt:
  "snd (summarize_text t m env) = Raises KeyboardInterrupt \<Longrightarrow> \<not> interrupt_free env"
  by (auto simp: summarize_text_def interrupt_free_def split: call_result.splits list.splits)

lemma summary_line_neq [simp]:
  "processing_line u \<noteq> summary_line s" "url_error_line e \<noteq> summary_line s"
  "extract_error_line u e \<noteq> summary_line s" "summarize_error_line e \<noteq> summary_line s"
  "summary_line s \<noteq> processing_line u" "summary_line s \<noteq> url_error_line e"
  "summary_line s \<noteq> extract_error_line u e" "summary_line s \<noteq> summarize_error_line e"
  by (simp_all add: processing_line_def url_error_line_def extract_error_line_def
      summarize_error_line_def summary_line_def)

subsection \<open>The paths through the loop body\<close>

lemma tick_url_Exception:
  "r_current_url env = Raises (Exception e) \<Longrightarrow>
   tick P env = ([Current_url, Print (url_error_line e), Sleep 5], P, sleep_control env)"
  by (simp add: tick_def sleep_continue_eq)

lemma tick_url_Interrupt:
  "r_current_url env = Raises KeyboardInterrupt \<Longrightarrow>
   tick P env = ([Current_url], P, Propagate KeyboardInterrupt)"
  by (simp add: tick_def)

lemma tick_invalid:
  "r_current_url env = Returns url \<Longrightarrow> url = [] \<or> prefix ''about:'' url \<Longrightarrow>
   tick P env = ([Current_url, Sleep 5], P, sleep_control env)"
  by (simp add: tick_def sleep_continue_eq)

lemma tick_known:
  "r_current_url env = Returns url \<Longrightarrow> url \<in> P \<Longrightarrow>
   tick P env = ([Current_url, Sleep 5], P, sleep_control env)"
  by (simp add: tick_def sleep_continue_eq)

lemma tick_extract_Exception:
  "r_current_url env = Returns u \<Longrightarrow> u \<noteq> [] \<Longrightarrow> \<not> prefix ''about:'' u \<Longrightarrow> u \<notin> P \<Longrightarrow>
   extract_text_from_url u env = (ex, Raises (Exception e)) \<Longrightarrow>
   tick P env =
     ([Current_url, Print (processing_line u)] @ ex @ [Print (extract_error_line u e), Sleep 5],
      P, sleep_control env)"
  by (simp add: tick_def sleep_continue_eq)

lemma tick_extract_Interrupt:
  "r_current_url env = Returns u \<Longrightarrow> u \<noteq> [] \<Longrightarrow> \<not> prefix ''about:'' u \<Longrightarrow> u \<notin> P \<Longrightarrow>
   extract_text_from_url u env = (ex, Raises KeyboardInterrupt) \<Longrightarrow>
   tick P env = ([Current_url, Print (processing_line u)] @ ex, P, Propagate KeyboardInterrupt)"
  by (simp add: tick_def)

lemma tick_summarize_Exception:
  "r_current_url env = Returns u \<Longrightarrow> u \<noteq> [] \<Longrightarrow> \<not> prefix ''about:'' u \<Longrightarrow> u \<notin> P \<Longrightarrow>
   extract_text_from_url u env = (ex, Returns t) \<Longrightarrow>
   summarize_text t default_model env = (su, Raises (Exception e)) \<Longrightarrow>
   tick P env =
     ([Current_url, Print (processing_line u), Get u, Sleep 2, Find_element, Text,
       Create default_model [\<lparr>role = ''user'', content = prompt t\<rparr>],
       Print (summarize_error_line e), Sleep 5],
      P, sleep_control env)"
  by (frule extract_Returns, frule summarize_fst) (simp add: tick_def sleep_continue_eq)

lemma tick_summarize_Interrupt:
  "r_current_url env = Returns u \<Longrightarrow> u \<noteq> [] \<Longrightarrow> \<not> prefix ''about:'' u \<Longrightarrow> u \<notin> P \<Longrightarrow>
   extract_text_from_url u env = (ex, Returns t) \<Longrightarrow>
   summarize_text t default_model env = (su, Raises KeyboardInterrupt) \<Longrightarrow>
   tick P env =
     ([Current_url, Print (processing_line u), Get u, Sleep 2, Find_element, Text,
       Create default_model [\<lparr>role = ''user'', content = prompt t\<rparr>]],
      P, Propagate KeyboardInterrupt)"
  by (frule extract_Returns, frule summarize_fst) (simp add: tick_def)

lemma tick_success:
  "r_current_url env = Returns u \<Longrightarrow> u \<noteq> [] \<Longrightarrow> \<not> prefix ''about:'' u \<Longrightarrow> u \<notin> P \<Longrightarrow>
   extract_text_from_url u env = (ex, Returns t) \<Longrightarrow>
   summarize_text t default_model env = (su, Returns s) \<Longrightarrow>
   tick P env =
     ([Current_url, Print (processing_line u), Get u, Sleep 2, Find_element, Text,
       Create default_model [\<lparr>role = ''user'', content = prompt t\<rparr>],
       Print (summary_line s), Add u, Sleep 5],
      insert u P, sleep_control env)"
  by (frule extract_Returns, frule summarize_fst) (simp add: tick_def sleep_continue_eq)

text \<open>Every iteration takes one of the nine paths through the loop body.\<close>

lemma tick_paths:
  obtains
    (url_exception) e where "r_current_url env = Raises (Exception e)"
  | (url_interrupt) "r_current_url env = Raises KeyboardInterrupt"
  | (invalid) u where "r_current_url env = Returns u" "u = [] \<or> prefix ''about:'' u"
  | (known) u where "r_current_url env = Returns u" "u \<in> P"
  | (extract_exception) u ex e where "r_current_url env = Returns u" "u \<noteq> []" "\<not> prefix ''about:'' u"
      "u \<notin> P" "extract_text_from_url u env = (ex, Raises (Exception e))"
  | (extract_interrupt) u ex where "r_current_url env = Returns u" "u \<noteq> []" "\<not> prefix ''about:'' u"
      "u \<notin> P" "extract_text_from_url u env = (ex, Raises KeyboardInterrupt)"
  | (summarize_exception) u ex t su e where "r_current_url env = Returns u" "u \<noteq> []" "\<not> prefix ''about:'' u"
      "u \<notin> P" "extract_text_from_url u env = (ex, Returns t)"
      "summarize_text t default_model env = (su, Raises (Exception e))"
  | (summarize_interrupt) u ex t su where "r_current_url env = Returns u" "u \<noteq> []" "\<not> prefix ''about:'' u"
      "u \<notin> P" "extract_text_from_url u env = (ex, Returns t)"
      "summarize_text t default_model env = (su, Raises KeyboardInterrupt)"
  | (success) u ex t su s where "r_current_url env = Returns u" "u \<noteq> []" "\<not> prefix ''about:'' u"
      "u \<notin> P" "extract_text_from_url u env = (ex, Returns t)"
      "summarize_text t default_model env = (su, Returns s)"
proof (cases "r_current_url env")
  case (Raises x)
  then show ?thesis using url_exception url_interrupt by (cases x) auto
next
  case (Returns u)
  show ?thesis
  proof (cases "u = [] \<or> prefix ''about:'' u \<or> u \<in> P")
    case True
    with Returns show ?thesis using invalid known by blast
  next
    case False
    obtain ex r where ex: "extract_text_from_url u env = (ex, r)"
      by (cases "extract_text_from_url u env") auto
    show ?thesis
    proof (cases r)
      case (Raises x)
      with Returns False ex show ?thesis
        using extract_exception extract_interrupt by (cases x) auto
    next
      case r: (Returns t)
      obtain su q where su: "summarize_text t default_model env = (su, q)"
        by (cases "summarize_text t default_model env") auto
      show ?thesis
      proof (cases q)
        case (Raises x)
        with Returns False ex r su show ?thesis
          using summarize_exception summarize_interrupt by (cases x) auto
      next
        case q: (Returns s)
        with Returns False ex r su show ?thesis
          using success by auto
      qed
    qed
  qed
qed

lemma tick_cases [consumes 1, case_names url_exception url_interrupt invalid known
    extract_exception extract_interrupt summarize_exception summarize_interrupt success]:
  assumes "tick P env = (acts, P', c)"
  obtains
    e where "r_current_url env = Raises (Exception e)"
      "acts = [Current_url, Print (url_error_line e), Sleep 5]" "P' = P" "c = sleep_control env"
  | "r_current_url env = Raises KeyboardInterrupt"
      "acts = [Current_url]" "P' = P" "c = Propagate KeyboardInterrupt"
  | u where "r_current_url env = Returns u" "u = [] \<or> prefix ''about:'' u"
      "acts = [Current_url, Sleep 5]" "P' = P" "c = sleep_control env"
  | u where "r_current_url env = Returns u" "u \<in> P"
      "acts = [Current_url, Sleep 5]" "P' = P" "c = sleep_control env"
  | u ex e where "r_current_url env = Returns u" "u \<noteq> []" "\<not> prefix ''about:'' u" "u \<notin> P"
      "extract_text_from_url u env = (ex, Raises (Exception e))"
      "acts = [Current_url, Print (processing_line u)] @ ex @ [Print (extract_error_line u e), Sleep 5]"
      "P' = P" "c = sleep_control env"
  | u ex where "r_current_url env = Returns u" "u \<noteq> []" "\<not> prefix ''about:'' u" "u \<notin> P"
      "extract_text_from_url u env = (ex, Raises KeyboardInterrupt)"
      "acts = [Current_url, Print (processing_line u)] @ ex"
      "P' = P" "c = Propagate KeyboardInterrupt"
  | u t e where "r_current_url env = Returns u" "u \<noteq> []" "\<not> prefix ''about:'' u" "u \<notin> P"
      "extract_text_from_url u env = ([Get u, Sleep 2, Find_element, Text], Returns t)"
      "snd (summarize_text t default_model env) = Raises (Exception e)"
      "acts = [Current_url, Print (processing_line u), Get u, Sleep 2, Find_element, Text,
               Create default_model [\<lparr>role = ''user'', content = prompt t\<rparr>],
               Print (summarize_error_line e), Sleep 5]"
      "P' = P" "c = sleep_control env"
  | u t where "r_current_url env = Returns u" "u \<noteq> []" "\<not> prefix ''about:'' u" "u \<notin> P"
      "extract_text_from_url u env = ([Get u, Sleep 2, Find_element, Text], Returns t)"
      "snd (summarize_text t default_model env) = Raises KeyboardInterrupt"
      "acts = [Current_url, Print (processing_line u), Get u, Sleep 2, Find_element, Text,
               Create default_model [\<lparr>role = ''user'', content = prompt t\<rparr>]]"
      "P' = P" "c = Propagate KeyboardInterrupt"
  | u t s where "r_current_url env = Returns u" "u \<noteq> []" "\<not> prefix ''about:'' u" "u \<notin> P"
      "extract_text_from_url u env = ([Get u, Sleep 2, Find_element, Text], Returns t)"
      "snd (summarize_text t default_model env) = Returns s"
      "acts = [Current_url, Print (processing_line u), Get u, Sleep 2, Find_element, Text,
               Create default_model [\<lparr>role = ''user'', content = prompt t\<rparr>],
               Print (summary_line s), Add u, Sleep 5]"
      "P' = insert u P" "c = sleep_control env"
proof (cases rule: tick_paths[where env=env and P=P])
  case (url_exception e)
  from tick_url_Exception[OF this, of P] assms that(1)[OF url_exception] show ?thesis by simp
next
  case url_interrupt
  from tick_url_Interrupt[OF this, of P] assms that(2)[OF url_interrupt] show ?thesis by simp
next
  case (invalid u)
  from tick_invalid[OF this, of P] assms that(3)[OF invalid] show ?thesis by simp
next
  case (known u)
  from tick_known[OF this] assms that(4)[OF known] show ?thesis by simp
next
  case (extract_exception u ex e)
  from tick_extract_Exception[OF this] assms that(5)[OF extract_exception] show ?thesis by simp
next
  case (extract_interrupt u ex)
  from tick_extract_Interrupt[OF this] assms that(6)[OF extract_interrupt] show ?thesis by simp
next
  case (summarize_exception u ex t su e)
  from extract_Returns[OF summarize_exception(5)] summarize_exception(5)
  have ex: "extract_text_from_url u env = ([Get u, Sleep 2, Find_element, Text], Returns t)" by simp
  from summarize_exception(6) have su: "snd (summarize_text t default_model env) = Raises (Exception e)" by simp
  from tick_summarize_Exception[OF summarize_exception] assms
    that(7)[OF summarize_exception(1-4) ex su] show ?thesis by simp
next
  case (summarize_interrupt u ex t su)
  from extract_Returns[OF summarize_interrupt(5)] summarize_interrupt(5)
  have ex: "extract_text_from_url u env = ([Get u, Sleep 2, Find_element, Text], Returns t)" by simp
  from summarize_interrupt(6) have su: "snd (summarize_text t default_model env) = Raises KeyboardInterrupt" by simp
  from tick_summarize_Interrupt[OF summarize_interrupt] assms
    that(8)[OF summarize_interrupt(1-4) ex su] show ?thesis by simp
next
  case (success u ex t su s)
  from extract_Returns[OF success(5)] success(5)
  have ex: "extract_text_from_url u env = ([Get u, Sleep 2, Find_element, Text], Returns t)" by simp
  from success(6) have su: "snd (summarize_text t default_model env) = Returns s" by simp
  from tick_success[OF success] assms
    that(9)[OF success(1-4) ex su] show ?thesis by simp
qed

subsection \<open>What one iteration does\<close>

lemma tick_mono: "tick P env = (acts, P', c) \<Longrightarrow> P \<subseteq> P'"
  by (erule tick_cases) auto

lemma tick_shape:
  assumes "tick P env = (acts, P', c)"
  shows "(P' = P \<and> (\<forall>u. Add u \<notin> set acts)) \<or>
   (\<exists>u t s. r_current_url env = Returns u \<and> u \<notin> P \<and> u \<noteq> [] \<and> \<not> prefix ''about:'' u \<and>
      r_text env = Returns t \<and> P' = insert u P \<and>
      acts = [Current_url, Print (processing_line u), Get u, Sleep 2, Find_element, Text,
              Create default_model [\<lparr>role = ''user'', content = prompt t\<rparr>],
              Print (summary_line s), Add u, Sleep 5])"
  using assms
proof (cases rule: tick_cases)
  case (extract_exception u ex e)
  with extract_set[OF extract_exception(5)] show ?thesis by auto
next
  case (extract_interrupt u ex)
  with extract_set[OF extract_interrupt(5)] show ?thesis by auto
next
  case (success u t s)
  with extract_Returns[OF success(5)] show ?thesis by auto
qed auto

lemma tick_processed:
  "tick P env = (acts, P', c) \<Longrightarrow> P' = P \<union> {u. Add u \<in> set acts}"
  by (drule tick_shape) auto

lemma tick_Get:
  assumes "tick P env = (acts, P', c)" "Get v \<in> set acts"
  shows "r_current_url env = Returns v \<and> v \<notin> P \<and> v \<noteq> [] \<and> \<not> prefix ''about:'' v"
  using assms
  by (cases rule: tick_cases) (auto dest: extract_set)

lemma tick_Add:
  "tick P env = (acts, P', c) \<Longrightarrow> Add u \<in> set acts \<Longrightarrow> u \<notin> P"
  by (drule tick_shape) auto

lemma tick_Create:
  assumes "tick P env = (acts, P', c)" "Create m msgs \<in> set acts"
  shows "m = default_model \<and>
         (\<exists>u t. r_current_url env = Returns u \<and>
            extract_text_from_url u env = ([Get u, Sleep 2, Find_element, Text], Returns t) \<and>
            msgs = [\<lparr>role = ''user'', content = prompt t\<rparr>])"
  using assms
  by (cases rule: tick_cases) (auto dest: extract_set)

lemma tick_Add_pre:
  assumes "tick P env = (acts, P', c)" and "acts = pre @ Add u # post"
  shows "\<exists>t s. pre = [Current_url, Print (processing_line u), Get u, Sleep 2, Find_element, Text,
                      Create default_model [\<lparr>role = ''user'', content = prompt t\<rparr>],
                      Print (summary_line s)]"
proof -
  from assms(2) have "Add u \<in> set acts" by simp
  with tick_shape[OF assms(1)] obtain v t s where
    acts: "acts = [Current_url, Print (processing_line v), Get v, Sleep 2, Find_element, Text,
              Create default_model [\<lparr>role = ''user'', content = prompt t\<rparr>],
              Print (summary_line s), Add v, Sleep 5]"
    by blast
  with \<open>Add u \<in> set acts\<close> have "v = u" by simp
  let ?pre = "[Current_url, Print (processing_line u), Get u, Sleep 2, Find_element, Text,
              Create default_model [\<lparr>role = ''user'', content = prompt t\<rparr>],
              Print (summary_line s)]"
  from acts \<open>v = u\<close> assms(2) have "?pre @ Add u # [Sleep 5] = pre @ Add u # post" by simp
  moreover have "Add u \<notin> set ?pre" "Add u \<notin> set [Sleep 5]" by simp_all
  ultimately have "?pre = pre"
    using append_Cons_eq_iff[of "Add u" ?pre "[Sleep 5]" pre post] by blast
  then show ?thesis by blast
qed

lemma tick_control:
  assumes "tick P env = (acts, P', c)"
  shows "c = Continue \<or> c = Propagate KeyboardInterrupt \<and> \<not> interrupt_free env"
  using assms
proof (cases rule: tick_cases)
  case url_interrupt
  then show ?thesis by (simp add: interrupt_free_def)
next
  case (extract_interrupt u ex)
  then show ?thesis using extract_Interrupt by blast
next
  case (summarize_interrupt u t)
  then show ?thesis using summarize_Interrupt by blast
qed (use sleep_control_cases[of env] in auto)

lemma tick_count_Current_url:
  assumes "tick P env = (acts, P', c)"
  shows "count_list acts Current_url = 1"
  using assms
proof (cases rule: tick_cases)
  case (extract_exception u ex e)
  from extract_set[OF extract_exception(5)] have "Current_url \<notin> set ex" by auto
  then have "count_list ex Current_url = 0" by (simp add: count_list_0_iff)
  with extract_exception show ?thesis by simp
next
  case (extract_interrupt u ex)
  from extract_set[OF extract_interrupt(5)] have "Current_url \<notin> set ex" by auto
  then have "count_list ex Current_url = 0" by (simp add: count_list_0_iff)
  with extract_interrupt show ?thesis by simp
qed simp_all

lemma tick_no_Quit: "tick P env = (acts, P', c) \<Longrightarrow> Quit \<notin> set acts"
  by (erule tick_cases) (auto dest: extract_set)

lemma tick_succeeds_new:
  assumes "succeeds env" "r_current_url env = Returns u" "u \<noteq> []" "\<not> prefix ''about:'' u" "u \<notin> P"
  shows "\<exists>t s. r_text env = Returns t \<and>
           tick P env =
             ([Current_url, Print (processing_line u), Get u, Sleep 2, Find_element, Text,
               Create default_model [\<lparr>role = ''user'', content = prompt t\<rparr>],
               Print (summary_line s), Add u, Sleep 5],
              insert u P, Continue)"
  using assms
  by (auto simp: succeeds_def tick_def extract_text_from_url_def summarize_text_def
      sleep_continue_def split: call_result.splits list.splits)

lemma tick_succeeds_skip:
  assumes "succeeds env" "r_current_url env = Returns u" "u = [] \<or> prefix ''about:'' u \<or> u \<in> P"
  shows "tick P env = ([Current_url, Sleep 5], P, Continue)"
  using assms
  by (auto simp: succeeds_def tick_def sleep_continue_def split: call_result.splits list.splits)

subsection \<open>What the loop does\<close>

lemma main_loop_mono: "main_loop P envs = (acts, P', st) \<Longrightarrow> P \<subseteq> P'"
proof (induction envs arbitrary: P acts P' st)
  case Nil
  then show ?case by simp
next
  case (Cons env envs)
  obtain a1 P1 c where t: "tick P env = (a1, P1, c)"
    by (cases "tick P env") auto
  then have 1: "P \<subseteq> P1" by (rule tick_mono)
  show ?case
  proof (cases c)
    case Continue
    obtain a2 P2 st2 where m: "main_loop P1 envs = (a2, P2, st2)"
      by (cases "main_loop P1 envs") auto
    with Cons.prems t Continue have "P' = P2" by simp
    moreover from m have "P1 \<subseteq> P2" by (rule Cons.IH)
    ultimately show ?thesis using 1 by blast
  next
    case (Propagate e)
    with Cons.prems t have "P' = P1" by simp
    with 1 show ?thesis by simp
  qed
qed

text \<open>Every action of the loop is an action of one of its iterations.\<close>

lemma main_loop_action:
  "main_loop P envs = (acts, P', st) \<Longrightarrow> a \<in> set acts \<Longrightarrow>
   \<exists>env\<in>set envs. \<exists>Q a1 Q' c. P \<subseteq> Q \<and> tick Q env = (a1, Q', c) \<and> a \<in> set a1"
proof (induction envs arbitrary: P acts P' st)
  case Nil
  then show ?case by simp
next
  case (Cons env envs)
  obtain a1 P1 c where t: "tick P env = (a1, P1, c)"
    by (cases "tick P env") auto
  then have sub: "P \<subseteq> P1" by (rule tick_mono)
  show ?case
  proof (cases "a \<in> set a1")
    case True
    with t show ?thesis by fastforce
  next
    case False
    show ?thesis
    proof (cases c)
      case Continue
      obtain a2 P2 st2 where m: "main_loop P1 envs = (a2, P2, st2)"
        by (cases "main_loop P1 envs") auto
      with Cons.prems(1) t Continue have "acts = a1 @ a2" by simp
      with Cons.prems(2) False have "a \<in> set a2" by auto
      with m obtain env' Q b Q' c' where
        "env' \<in> set envs" "P1 \<subseteq> Q" "tick Q env' = (b, Q', c')" "a \<in> set b"
        using Cons.IH by blast
      with sub show ?thesis by (meson list.set_intros(2) subset_trans)
    next
      case (Propagate e)
      with Cons.prems(1) t have "acts = a1" by simp
      with Cons.prems(2) False show ?thesis by simp
    qed
  qed
qed

lemma main_loop_Get:
  assumes "main_loop P envs = (acts, P', st)" and "Get u \<in> set acts"
  shows "u \<notin> P"
proof -
  from main_loop_action[OF assms] obtain env Q a1 Q' c where
    "P \<subseteq> Q" "tick Q env = (a1, Q', c)" "Get u \<in> set a1"
    by blast
  with tick_Get[of Q env a1 Q' c u] show ?thesis by blast
qed

lemma main_loop_Add:
  assumes "main_loop P envs = (acts, P', st)" and "Add u \<in> set acts"
  shows "u \<notin> P"
proof -
  from main_loop_action[OF assms] obtain env Q a1 Q' c where
    "P \<subseteq> Q" "tick Q env = (a1, Q', c)" "Add u \<in> set a1"
    by blast
  with tick_Add[of Q env a1 Q' c u] show ?thesis by blast
qed

lemma main_loop_status:
  "main_loop P envs = (acts, P', st) \<Longrightarrow>
   (st = Running \<and> count_list acts Current_url = length envs) \<or>
   (st = Exited KeyboardInterrupt \<and> (\<exists>env\<in>set envs. \<not> interrupt_free env))"
proof (induction envs arbitrary: P acts P' st)
  case Nil
  then show ?case by simp
next
  case (Cons env envs)
  obtain a1 P1 c where t: "tick P env = (a1, P1, c)"
    by (cases "tick P env") auto
  from tick_control[OF t] show ?case
  proof
    assume c: "c = Continue"
    obtain a2 P2 st2 where m: "main_loop P1 envs = (a2, P2, st2)"
      by (cases "main_loop P1 envs") auto
    with Cons.prems t c have eq: "acts = a1 @ a2" "st = st2" by simp_all
    from Cons.IH[OF m] tick_count_Current_url[OF t] eq show ?thesis by auto
  next
    assume c: "c = Propagate KeyboardInterrupt \<and> \<not> interrupt_free env"
    with Cons.prems t have "st = Exited KeyboardInterrupt" by simp
    with c show ?thesis by simp
  qed
qed

lemma main_loop_Exited: "main_loop P envs = (acts, P', Exited e) \<Longrightarrow> e = KeyboardInterrupt"
  by (drule main_loop_status) simp

lemma main_loop_processed:
  "main_loop P envs = (acts, P', st) \<Longrightarrow> P' = P \<union> {u. Add u \<in> set acts}"
proof (induction envs arbitrary: P acts P' st)
  case Nil
  then show ?case by simp
next
  case (Cons env envs)
  obtain a1 P1 c where t: "tick P env = (a1, P1, c)"
    by (cases "tick P env") auto
  then have P1: "P1 = P \<union> {u. Add u \<in> set a1}" by (rule tick_processed)
  show ?case
  proof (cases c)
    case Continue
    obtain a2 P2 st2 where m: "main_loop P1 envs = (a2, P2, st2)"
      by (cases "main_loop P1 envs") auto
    with Cons.prems t Continue have eq: "acts = a1 @ a2" "P' = P2" by simp_all
    from m have "P2 = P1 \<union> {u. Add u \<in> set a2}" by (rule Cons.IH)
    with P1 eq show ?thesis by auto
  next
    case (Propagate e)
    with Cons.prems t have "acts = a1" "P' = P1" by simp_all
    with P1 show ?thesis by simp
  qed
qed

lemma append_split_right:
  assumes "a \<notin> set xs" and "xs @ ys = pre @ a # post"
  obtains pre2 where "pre = xs @ pre2" and "ys = pre2 @ a # post"
proof -
  from assms(2) consider us where "xs = pre @ us" "us @ ys = a # post"
    | us where "xs @ us = pre" "ys = us @ a # post"
    by (auto simp: append_eq_append_conv2)
  then show ?thesis
  proof cases
    case 1
    with assms(1) have "us = []" by (cases us) auto
    with 1 that[of "[]"] show ?thesis by simp
  next
    case 2
    with that[of us] show ?thesis by simp
  qed
qed

lemma main_loop_Add_pre:
  "main_loop P envs = (acts, P', st) \<Longrightarrow> acts = pre @ Add u # post \<Longrightarrow>
   \<exists>pre' t s. pre = pre' @ [Current_url, Print (processing_line u), Get u, Sleep 2, Find_element, Text,
                      Create default_model [\<lparr>role = ''user'', content = prompt t\<rparr>],
                      Print (summary_line s)]"
proof (induction envs arbitrary: P acts P' st pre)
  case Nil
  then show ?case by simp
next
  case (Cons env envs)
  obtain a1 P1 c where t: "tick P env = (a1, P1, c)"
    by (cases "tick P env") auto
  have in_tick: ?case if "a1 = pre @ Add u # rest" for rest
    using tick_Add_pre[OF t that] by fastforce
  show ?case
  proof (cases c)
    case Continue
    obtain a2 P2 st2 where m: "main_loop P1 envs = (a2, P2, st2)"
      by (cases "main_loop P1 envs") auto
    with Cons.prems(1) t Continue have "acts = a1 @ a2" by simp
    with Cons.prems(2) have "a1 @ a2 = pre @ Add u # post" by simp
    then consider (left) rest where "a1 = pre @ Add u # rest"
      | (right) pre2 where "pre = a1 @ pre2" "a2 = pre2 @ Add u # post"
      by (auto simp: append_eq_append_conv2 append_eq_Cons_conv Cons_eq_append_conv)
    then show ?thesis
    proof cases
      case left
      then show ?thesis by (rule in_tick)
    next
      case right
      from Cons.IH[OF m right(2)] obtain pre' tx s where
        "pre2 = pre' @ [Current_url, Print (processing_line u), Get u, Sleep 2, Find_element, Text,
                      Create default_model [\<lparr>role = ''user'', content = prompt tx\<rparr>],
                      Print (summary_line s)]"
        by blast
      with right(1) have "pre = (a1 @ pre') @ [Current_url, Print (processing_line u), Get u, Sleep 2, Find_element, Text,
                      Create default_model [\<lparr>role = ''user'', content = prompt tx\<rparr>],
                      Print (summary_line s)]"
        by simp
      then show ?thesis by blast
    qed
  next
    case (Propagate e)
    with Cons.prems(1) t have "acts = a1" by simp
    with Cons.prems(2) show ?thesis using in_tick by blast
  qed
qed

lemma main_loop_no_Quit: "main_loop P envs = (acts, P', st) \<Longrightarrow> Quit \<notin> set acts"
  using main_loop_action tick_no_Quit by blast

lemma banner_no_Add: "Add u \<notin> set banner"
  by (simp add: banner_def)

subsection \<open>Interrupts\<close>

lemma added_eq: "added acts P = P \<union> {u. Add u \<in> set acts}"
  by (induction acts P rule: added.induct) auto

lemma extract_interrupts:
  "extract_text_from_url u env = (ex, r) \<Longrightarrow> a \<in> set ex \<Longrightarrow> interrupts env a \<Longrightarrow>
   r = Raises KeyboardInterrupt"
  by (auto simp: extract_text_from_url_def split: call_result.splits sleep_result.splits if_splits)

lemma summarize_Returns_create:
  "snd (summarize_text t m env) = Returns s \<Longrightarrow> r_create env \<noteq> Raises KeyboardInterrupt"
  by (auto simp: summarize_text_def)

lemma summarize_Exception_create:
  "snd (summarize_text t m env) = Raises (Exception e) \<Longrightarrow> r_create env \<noteq> Raises KeyboardInterrupt"
  by (auto simp: summarize_text_def)

lemma sleep_control_interrupted:
  "r_sleep5 env = Sleep_interrupted \<Longrightarrow> sleep_control env = Propagate KeyboardInterrupt"
  by (simp add: sleep_control_def)

text \<open>An interrupt in a call that the iteration makes leaves the loop body.\<close>

lemma tick_call_interrupt:
  assumes "tick P env = (acts, P', c)" and "a \<in> set acts" and "interrupts env a"
  shows "c = Propagate KeyboardInterrupt"
  using assms
proof (cases rule: tick_cases)
  case (extract_exception u ex e)
  with assms(2,3) extract_interrupts[OF extract_exception(5), of a] show ?thesis
    by (auto simp: sleep_control_interrupted split: if_splits)
next
  case (extract_interrupt u ex)
  then show ?thesis by simp
next
  case (summarize_exception u t e)
  with assms(2,3) extract_interrupts[OF summarize_exception(5), of a]
    summarize_Exception_create[OF summarize_exception(6)] show ?thesis
    by (auto simp: sleep_control_interrupted split: if_splits)
next
  case (success u t s)
  with assms(2,3) extract_interrupts[OF success(5), of a]
    summarize_Returns_create[OF success(6)] show ?thesis
    by (auto simp: sleep_control_interrupted split: if_splits)
qed (use assms(2,3) in \<open>auto simp: sleep_control_interrupted split: if_splits\<close>)


text \<open>
  An iteration reached by an interrupt, between two of its actions or in one of its
  calls, performs an initial part of its actions and leaves the loop body.
\<close>

lemma tick_async_interrupted:
  assumes "tick Q env = (a1, Q1, c)"
    and "k < length a1 \<or> (\<exists>a\<in>set a1. interrupts env a)"
  shows "\<exists>a1'. tick_async k Q env = (a1', Q \<union> {u. Add u \<in> set a1'}, Propagate KeyboardInterrupt) \<and>
               prefix a1' a1"
proof (cases "k < length a1")
  case True
  with assms(1) have "tick_async k Q env =
      (take k a1, Q \<union> {u. Add u \<in> set (take k a1)}, Propagate KeyboardInterrupt)"
    by (simp add: tick_async_def added_eq)
  moreover have "prefix (take k a1) a1" by (rule take_is_prefix)
  ultimately show ?thesis by blast
next
  case False
  with assms(2) obtain a where "a \<in> set a1" "interrupts env a" by blast
  with assms(1) have c: "c = Propagate KeyboardInterrupt" by (rule tick_call_interrupt)
  from assms(1) have "Q1 = Q \<union> {u. Add u \<in> set a1}" by (rule tick_processed)
  with assms(1) False c have "tick_async k Q env =
      (a1, Q \<union> {u. Add u \<in> set a1}, Propagate KeyboardInterrupt)"
    by (simp add: tick_async_def)
  then show ?thesis by blast
qed

lemma summary_line_inj: "summary_line s = summary_line s' \<Longrightarrow> s = s'"
  by (simp add: summary_line_def)

text \<open>A summary line among the actions of an iteration is the summary that was returned.\<close>

lemma tick_summary_printed:
  assumes "tick Q env = (a1, Q1, c)" and "Print (summary_line s) \<in> set a1"
  shows "\<exists>u t. r_current_url env = Returns u \<and>
           snd (extract_text_from_url u env) = Returns t \<and>
           snd (summarize_text t default_model env) = Returns s"
  using assms
proof (cases rule: tick_cases)
  case (extract_exception u ex e)
  with assms(2) extract_set[OF extract_exception(5)] show ?thesis by auto
next
  case (extract_interrupt u ex)
  with assms(2) extract_set[OF extract_interrupt(5)] show ?thesis by auto
next
  case (success u t s')
  with assms(2) have "s = s'" by (auto dest: summary_line_inj)
  with success show ?thesis by auto
qed (use assms(2) in auto)

lemma tick_prefix_Add_pre:
  assumes "tick Q env = (a1, Q1, c)" and "prefix a1' a1" and "a1' = pre @ Add u # post"
  shows "\<exists>t s. pre = [Current_url, Print (processing_line u), Get u, Sleep 2, Find_element, Text,
                      Create default_model [\<lparr>role = ''user'', content = prompt t\<rparr>],
                      Print (summary_line s)]"
proof -
  from assms(2) obtain zs where "a1 = a1' @ zs" by (auto simp: prefix_def)
  with assms(3) have "a1 = pre @ Add u # (post @ zs)" by simp
  with assms(1) show ?thesis by (rule tick_Add_pre)
qed

lemma main_interrupt_free:
  assumes "\<forall>e\<in>set envs. interrupt_free e" and "main envs = (a0, Q, st)"
  shows "st = Running \<and> Quit \<notin> set a0"
proof -
  from assms(2) obtain lacts where m: "main_loop {} envs = (lacts, Q, st)" and a0: "a0 = banner @ lacts"
    by (auto simp: main_def split: prod.splits)
  from main_loop_status[OF m] assms(1) have "st = Running" by blast
  moreover from main_loop_no_Quit[OF m] a0 have "Quit \<notin> set a0" by (simp add: banner_def)
  ultimately show ?thesis by simp
qed

text \<open>Without an interrupt between statements, \<open>main_async\<close> is main with one more iteration.\<close>

lemma main_loop_snoc:
  "main_loop P envs = (a0, Q, st) \<Longrightarrow> tick Q env = (a1, Q1, c) \<Longrightarrow>
   main_loop P (envs @ [env]) =
     (case st of
        Exited e \<Rightarrow> (a0, Q, Exited e)
      | Running \<Rightarrow> (a0 @ a1, Q1, case c of Continue \<Rightarrow> Running | Propagate e \<Rightarrow> Exited e))"
proof (induction envs arbitrary: P a0)
  case Nil
  then show ?case by (simp split: control.splits)
next
  case (Cons x envs)
  obtain b P1 d where t: "tick P x = (b, P1, d)"
    by (cases "tick P x") auto
  show ?case
  proof (cases d)
    case Continue
    obtain a2 P2 st2 where m: "main_loop P1 envs = (a2, P2, st2)"
      by (cases "main_loop P1 envs") auto
    with Cons.prems(1) t Continue have eq: "a0 = b @ a2" "Q = P2" "st = st2" by simp_all
    from m eq have "main_loop P1 envs = (a2, Q, st)" by simp
    from Cons.IH[OF this Cons.prems(2)] t Continue eq show ?thesis
      by (simp split: status.splits control.splits)
  next
    case (Propagate e)
    with Cons.prems(1) t show ?thesis by auto
  qed
qed

lemma main_async_uninterrupted:
  assumes "main envs = (a0, Q, st)" and "length (fst (tick Q env)) \<le> k"
  shows "main_async envs env k = main (envs @ [env])"
proof -
  obtain a1 Q1 c where t: "tick Q env = (a1, Q1, c)"
    by (cases "tick Q env") auto
  from assms(1) obtain l where m: "main_loop {} envs = (l, Q, st)" and a0: "a0 = banner @ l"
    by (auto simp: main_def split: prod.splits)
  from assms(2) t have ta: "tick_async k Q env = (a1, Q1, c)"
    by (simp add: tick_async_def)
  from main_loop_snoc[OF m t] assms(1) a0 ta show ?thesis
    by (simp add: main_async_def main_def split: status.splits control.splits)
qed

lemma script_entry_async:
  assumes "main envs = (a0, Q, st)" and "length (fst (tick Q env)) \<le> k"
  shows "entry_point (main_async envs env k) = script_entry (envs @ [env])"
  by (simp add: script_entry_def main_async_uninterrupted[OF assms])

section \<open>The claims\<close>

text \<open>
  C1 (idempotence of processing). Once an address A is in \<^verbatim>\<open>processed_urls\<close>, it stays
  there through any further iterations, none of these iterations calls \<^verbatim>\<open>driver.get\<close>
  on A or adds A again, and an iteration that reads A as the current address does nothing
  but read the address and sleep: no extraction and no summarization.
\<close>

theorem processed_address_not_reprocessed:
  assumes "A \<in> P" and "main_loop P envs = (acts, Q, st)"
  shows "A \<in> Q \<and> Get A \<notin> set acts \<and> Add A \<notin> set acts \<and>
         (\<forall>env. r_current_url env = Returns A \<longrightarrow>
            tick Q env = ([Current_url, Sleep 5], Q, sleep_control env))"
proof -
  from assms(2) have "P \<subseteq> Q" by (rule main_loop_mono)
  with assms(1) have q: "A \<in> Q" by blast
  moreover from assms have "Get A \<notin> set acts" using main_loop_Get by blast
  moreover from assms have "Add A \<notin> set acts" using main_loop_Add by blast
  moreover from q have "\<forall>env. r_current_url env = Returns A \<longrightarrow>
            tick Q env = ([Current_url, Sleep 5], Q, sleep_control env)"
    using tick_known by blast
  ultimately show ?thesis by blast
qed

theorem processed_address_not_reprocessed_witness:
  "''https://x.test/p1'' \<in> {''https://x.test/p1''}
   \<and> main_loop {''https://x.test/p1''} [ok_env ''https://x.test/p2'' ''t2'' ''s2'']
       = ([Current_url, Print (processing_line ''https://x.test/p2''), Get ''https://x.test/p2'',
           Sleep 2, Find_element, Text,
           Create default_model [\<lparr>role = ''user'', content = prompt ''t2''\<rparr>],
           Print (summary_line ''s2''), Add ''https://x.test/p2'', Sleep 5],
          {''https://x.test/p2'', ''https://x.test/p1''}, Running)
   \<and> tick {''https://x.test/p2'', ''https://x.test/p1''} (ok_env ''https://x.test/p1'' ''t1'' ''s1'')
       = ([Current_url, Sleep 5], {''https://x.test/p2'', ''https://x.test/p1''}, Continue)"
proof -
  have 1: "''https://x.test/p1'' \<in> {''https://x.test/p1''}"
    by simp
  have 2: "main_loop {''https://x.test/p1''} [ok_env ''https://x.test/p2'' ''t2'' ''s2'']
       = ([Current_url, Print (processing_line ''https://x.test/p2''), Get ''https://x.test/p2'',
           Sleep 2, Find_element, Text,
           Create default_model [\<lparr>role = ''user'', content = prompt ''t2''\<rparr>],
           Print (summary_line ''s2''), Add ''https://x.test/p2'', Sleep 5],
          {''https://x.test/p2'', ''https://x.test/p1''}, Running)"
    by (simp add: tick_def ok_env_def extract_text_from_url_def summarize_text_def
          sleep_continue_def)
  have 3: "r_current_url (ok_env ''https://x.test/p1'' ''t1'' ''s1'') = Returns ''https://x.test/p1''"
    by (simp add: ok_env_def)
  have 4: "sleep_control (ok_env ''https://x.test/p1'' ''t1'' ''s1'') = Continue"
    by (simp add: ok_env_def sleep_control_def)
  from processed_address_not_reprocessed[OF 1 2] 3 4
  have "tick {''https://x.test/p2'', ''https://x.test/p1''} (ok_env ''https://x.test/p1'' ''t1'' ''s1'')
       = ([Current_url, Sleep 5], {''https://x.test/p2'', ''https://x.test/p1''}, Continue)"
    by simp
  with 1 2 show ?thesis by blast
qed

text \<open>
  C2 (failure non-poisoning). When the iteration is processing a new address A and the
  extraction or the summarization raises an exception, the failure is followed by the
  five-second sleep only: \<^verbatim>\<open>processed_urls\<close> is unchanged and A is not in it. An iteration
  that observes A next announces A and runs the extraction on A again, and when that
  extraction returns a text it calls the summarizer on it.
\<close>

theorem failure_does_not_mark_processed:
  assumes "tick P env = (acts, P', c)"
    and "r_current_url env = Returns A" and "A \<noteq> []" and "\<not> prefix ''about:'' A" and "A \<notin> P"
    and "snd (extract_text_from_url A env) = Raises (Exception e) \<or>
         (\<exists>t. snd (extract_text_from_url A env) = Returns t \<and>
              snd (summarize_text t default_model env) = Raises (Exception e))"
    and "r_current_url env' = Returns A"
  shows "P' = P \<and> A \<notin> P' \<and> Add A \<notin> set acts \<and> c = sleep_control env \<and>
         (\<exists>rest. fst (tick P' env') = [Current_url, Print (processing_line A), Get A] @ rest) \<and>
         (\<forall>t'. snd (extract_text_from_url A env') = Returns t' \<longrightarrow>
            (\<exists>rest. fst (tick P' env') =
               [Current_url, Print (processing_line A), Get A, Sleep 2, Find_element, Text,
                Create default_model [\<lparr>role = ''user'', content = prompt t'\<rparr>]] @ rest))"
proof -
  have first: "P' = P \<and> Add A \<notin> set acts \<and> c = sleep_control env"
    using assms(1-6) by (cases rule: tick_cases) (auto dest: extract_set)
  with assms(5) have notin: "A \<notin> P'" by simp
  obtain acts' P'' c' where t': "tick P' env' = (acts', P'', c')"
    by (cases "tick P' env'") auto
  from t' assms(7,3,4) notin
  have again: "\<exists>rest. acts' = [Current_url, Print (processing_line A), Get A] @ rest"
    by (cases rule: tick_cases) (auto dest: extract_hd)
  have summ: "\<exists>rest. acts' =
               [Current_url, Print (processing_line A), Get A, Sleep 2, Find_element, Text,
                Create default_model [\<lparr>role = ''user'', content = prompt t'\<rparr>]] @ rest"
    if "snd (extract_text_from_url A env') = Returns t'" for t'
    using t' assms(7,3,4) notin that by (cases rule: tick_cases) auto
  from first notin again summ t' show ?thesis by simp
qed


theorem failure_does_not_mark_processed_witness:
  "tick {} ((ok_env ''https://x.test/p1'' ''t'' ''s'')\<lparr>r_find_element := Raises (Exception ''no body'')\<rparr>)
     = ([Current_url, Print (processing_line ''https://x.test/p1''), Get ''https://x.test/p1'',
         Sleep 2, Find_element, Print (extract_error_line ''https://x.test/p1'' ''no body''),
         Sleep 5], {}, Continue)
   \<and> snd (extract_text_from_url ''https://x.test/p1''
          ((ok_env ''https://x.test/p1'' ''t'' ''s'')\<lparr>r_find_element := Raises (Exception ''no body'')\<rparr>))
       = Raises (Exception ''no body'')
   \<and> snd (extract_text_from_url ''https://x.test/p1'' (ok_env ''https://x.test/p1'' ''hello'' ''s1''))
       = Returns ''hello''
   \<and> (\<exists>rest. fst (tick {} (ok_env ''https://x.test/p1'' ''hello'' ''s1'')) =
          [Current_url, Print (processing_line ''https://x.test/p1''), Get ''https://x.test/p1'',
           Sleep 2, Find_element, Text,
           Create default_model [\<lparr>role = ''user'', content = prompt ''hello''\<rparr>]] @ rest)"
proof -
  let ?A = "''https://x.test/p1''"
  let ?env = "(ok_env ?A ''t'' ''s'')\<lparr>r_find_element := Raises (Exception ''no body'')\<rparr>"
  let ?env' = "ok_env ?A ''hello'' ''s1''"
  have 1: "tick {} ?env
     = ([Current_url, Print (processing_line ?A), Get ?A,
         Sleep 2, Find_element, Print (extract_error_line ?A ''no body''),
         Sleep 5], {}, Continue)"
    by (simp add: tick_def ok_env_def extract_text_from_url_def sleep_continue_def)
  have 2: "r_current_url ?env = Returns ?A" by (simp add: ok_env_def)
  have 3: "?A \<noteq> []" by simp
  have 4: "\<not> prefix ''about:'' ?A" by simp
  have 5: "?A \<notin> {}" by simp
  have 6: "snd (extract_text_from_url ?A ?env) = Raises (Exception ''no body'')"
    by (simp add: ok_env_def extract_text_from_url_def)
  then have alt: "snd (extract_text_from_url ?A ?env) = Raises (Exception ''no body'') \<or>
         (\<exists>t. snd (extract_text_from_url ?A ?env) = Returns t \<and>
              snd (summarize_text t default_model ?env) = Raises (Exception ''no body''))" ..
  have 7: "r_current_url ?env' = Returns ?A" by (simp add: ok_env_def)
  have 8: "snd (extract_text_from_url ?A ?env') = Returns ''hello''"
    by (simp add: ok_env_def extract_text_from_url_def)
  from failure_does_not_mark_processed[OF 1 2 3 4 5 alt 7] 8
  have "\<exists>rest. fst (tick {} ?env') =
          [Current_url, Print (processing_line ?A), Get ?A, Sleep 2, Find_element, Text,
           Create default_model [\<lparr>role = ''user'', content = prompt ''hello''\<rparr>]] @ rest"
    by blast
  with 1 6 8 show ?thesis by blast
qed

text \<open>
  C3 (invalid-address filtering). When the current address is the empty string or starts
  with \<^verbatim>\<open>about:\<close>, the iteration reads the address and sleeps five seconds, and nothing
  else: no extraction, no summarization, and \<^verbatim>\<open>processed_urls\<close> is unchanged.
\<close>

theorem invalid_address_filtered:
  assumes "r_current_url env = Returns url" and "url = [] \<or> prefix ''about:'' url"
  shows "tick P env = ([Current_url, Sleep 5], P, sleep_control env)"
  using assms by (rule tick_invalid)

theorem invalid_address_filtered_witness:
  "r_current_url (ok_env ''about:blank'' ''t'' ''s'') = Returns ''about:blank''
   \<and> (''about:blank'' = [] \<or> prefix ''about:'' ''about:blank'')
   \<and> tick {''https://x.test/p1''} (ok_env ''about:blank'' ''t'' ''s'')
       = ([Current_url, Sleep 5], {''https://x.test/p1''}, Continue)"
proof -
  have 1: "r_current_url (ok_env ''about:blank'' ''t'' ''s'') = Returns ''about:blank''"
    by (simp add: ok_env_def)
  have 2: "''about:blank'' = [] \<or> prefix ''about:'' ''about:blank''"
    by simp
  have 3: "sleep_control (ok_env ''about:blank'' ''t'' ''s'') = Continue"
    by (simp add: ok_env_def sleep_control_def)
  from invalid_address_filtered[OF 1 2, of "{''https://x.test/p1''}"] 1 2 3
  show ?thesis by simp
qed

text \<open>
  C4 (scenario). The loop observes the empty address, \<^verbatim>\<open>about:blank\<close>, p1, p1 again and p2,
  and extraction and summarization succeed whenever they are called. Then the summarizer is
  called exactly twice: first on the text extracted from p1 in the third iteration, then on
  the text extracted from p2 in the fifth; the fourth iteration, which observes p1 again,
  calls neither the extraction nor the summarizer.
\<close>

theorem scenario_two_summaries:
  assumes "map r_current_url envs =
             [Returns [], Returns ''about:blank'', Returns ''https://x.test/p1'',
              Returns ''https://x.test/p1'', Returns ''https://x.test/p2'']"
    and "\<forall>env\<in>set envs. succeeds env"
    and "main_loop {} envs = (acts, P', st)"
  shows "\<exists>t1 t2.
           r_text (envs ! 2) = Returns t1 \<and> r_text (envs ! 4) = Returns t2 \<and>
           filter (\<lambda>a. is_Get a \<or> is_Create a) acts =
             [Get ''https://x.test/p1'',
              Create default_model [\<lparr>role = ''user'', content = prompt t1\<rparr>],
              Get ''https://x.test/p2'',
              Create default_model [\<lparr>role = ''user'', content = prompt t2\<rparr>]] \<and>
           P' = {''https://x.test/p1'', ''https://x.test/p2''} \<and> st = Running"
proof -
  from assms(1) obtain e1 e2 e3 e4 e5 where envs: "envs = [e1, e2, e3, e4, e5]"
    and u: "r_current_url e1 = Returns []" "r_current_url e2 = Returns ''about:blank''"
      "r_current_url e3 = Returns ''https://x.test/p1''"
      "r_current_url e4 = Returns ''https://x.test/p1''"
      "r_current_url e5 = Returns ''https://x.test/p2''"
    by (auto simp: map_eq_Cons_conv)
  from assms(2) envs have s: "succeeds e1" "succeeds e2" "succeeds e3" "succeeds e4" "succeeds e5"
    by simp_all
  have k1: "tick {} e1 = ([Current_url, Sleep 5], {}, Continue)"
    using tick_succeeds_skip[OF s(1) u(1)] by simp
  have k2: "tick {} e2 = ([Current_url, Sleep 5], {}, Continue)"
    using tick_succeeds_skip[OF s(2) u(2)] by simp
  from tick_succeeds_new[OF s(3) u(3), of "{}"] obtain t1 s1 where
    t1: "r_text e3 = Returns t1" and
    k3: "tick {} e3 =
             ([Current_url, Print (processing_line ''https://x.test/p1''), Get ''https://x.test/p1'',
               Sleep 2, Find_element, Text,
               Create default_model [\<lparr>role = ''user'', content = prompt t1\<rparr>],
               Print (summary_line s1), Add ''https://x.test/p1'', Sleep 5],
              {''https://x.test/p1''}, Continue)"
    by auto
  have k4: "tick {''https://x.test/p1''} e4 = ([Current_url, Sleep 5], {''https://x.test/p1''}, Continue)"
    using tick_succeeds_skip[OF s(4) u(4), of "{''https://x.test/p1''}"] by simp
  from tick_succeeds_new[OF s(5) u(5), of "{''https://x.test/p1''}"] obtain t2 s2 where
    t2: "r_text e5 = Returns t2" and
    k5: "tick {''https://x.test/p1''} e5 =
             ([Current_url, Print (processing_line ''https://x.test/p2''), Get ''https://x.test/p2'',
               Sleep 2, Find_element, Text,
               Create default_model [\<lparr>role = ''user'', content = prompt t2\<rparr>],
               Print (summary_line s2), Add ''https://x.test/p2'', Sleep 5],
              {''https://x.test/p2'', ''https://x.test/p1''}, Continue)"
    by auto
  from assms(3) envs k1 k2 k3 k4 k5
  have "acts = [Current_url, Sleep 5, Current_url, Sleep 5,
                Current_url, Print (processing_line ''https://x.test/p1''), Get ''https://x.test/p1'',
                Sleep 2, Find_element, Text,
                Create default_model [\<lparr>role = ''user'', content = prompt t1\<rparr>],
                Print (summary_line s1), Add ''https://x.test/p1'', Sleep 5,
                Current_url, Sleep 5,
                Current_url, Print (processing_line ''https://x.test/p2''), Get ''https://x.test/p2'',
                Sleep 2, Find_element, Text,
                Create default_model [\<lparr>role = ''user'', content = prompt t2\<rparr>],
                Print (summary_line s2), Add ''https://x.test/p2'', Sleep 5]"
    and "P' = {''https://x.test/p2'', ''https://x.test/p1''}" and "st = Running"
    by simp_all
  with t1 t2 envs show ?thesis by auto
qed


theorem scenario_two_summaries_witness:
  "map r_current_url
     [ok_env [] ''t0'' ''s0'', ok_env ''about:blank'' ''tb'' ''sb'',
      ok_env ''https://x.test/p1'' ''text1'' ''sum1'', ok_env ''https://x.test/p1'' ''text1'' ''sum1'',
      ok_env ''https://x.test/p2'' ''text2'' ''sum2'']
     = [Returns [], Returns ''about:blank'', Returns ''https://x.test/p1'',
        Returns ''https://x.test/p1'', Returns ''https://x.test/p2'']
   \<and> list_all succeeds
     [ok_env [] ''t0'' ''s0'', ok_env ''about:blank'' ''tb'' ''sb'',
      ok_env ''https://x.test/p1'' ''text1'' ''sum1'', ok_env ''https://x.test/p1'' ''text1'' ''sum1'',
      ok_env ''https://x.test/p2'' ''text2'' ''sum2'']
   \<and> filter (\<lambda>a. is_Get a \<or> is_Create a)
       (fst (main_loop {}
         [ok_env [] ''t0'' ''s0'', ok_env ''about:blank'' ''tb'' ''sb'',
          ok_env ''https://x.test/p1'' ''text1'' ''sum1'', ok_env ''https://x.test/p1'' ''text1'' ''sum1'',
          ok_env ''https://x.test/p2'' ''text2'' ''sum2'']))
     = [Get ''https://x.test/p1'',
        Create default_model [\<lparr>role = ''user'', content = prompt ''text1''\<rparr>],
        Get ''https://x.test/p2'',
        Create default_model [\<lparr>role = ''user'', content = prompt ''text2''\<rparr>]]"
proof -
  let ?envs = "[ok_env [] ''t0'' ''s0'', ok_env ''about:blank'' ''tb'' ''sb'',
      ok_env ''https://x.test/p1'' ''text1'' ''sum1'', ok_env ''https://x.test/p1'' ''text1'' ''sum1'',
      ok_env ''https://x.test/p2'' ''text2'' ''sum2'']"
  have 1: "map r_current_url ?envs
     = [Returns [], Returns ''about:blank'', Returns ''https://x.test/p1'',
        Returns ''https://x.test/p1'', Returns ''https://x.test/p2'']"
    by (simp add: ok_env_def)
  have 2: "\<forall>env\<in>set ?envs. succeeds env"
    by (simp add: ok_env_def succeeds_def)
  obtain acts P' st where 3: "main_loop {} ?envs = (acts, P', st)"
    by (cases "main_loop {} ?envs") auto
  have 4: "r_text (?envs ! 2) = Returns ''text1''" "r_text (?envs ! 4) = Returns ''text2''"
    by (simp_all add: ok_env_def)
  from scenario_two_summaries[OF 1 2 3] 4
  have "filter (\<lambda>a. is_Get a \<or> is_Create a) acts
     = [Get ''https://x.test/p1'',
        Create default_model [\<lparr>role = ''user'', content = prompt ''text1''\<rparr>],
        Get ''https://x.test/p2'',
        Create default_model [\<lparr>role = ''user'', content = prompt ''text2''\<rparr>]]"
    by auto
  with 1 2 3 show ?thesis by (simp add: list_all_iff)
qed

text \<open>
  C5 (an address is recorded only after its summary). In a run of main, every addition of
  an address u to \<^verbatim>\<open>processed_urls\<close> comes directly after the print of a summary, which
  comes directly after the request to the summarizer for the text extracted from u in the
  same iteration: reading the address, the announcement of u, the extraction on u, the
  request, the summary line, then the addition, with nothing in between. The members of
  \<^verbatim>\<open>processed_urls\<close> are exactly the addresses so added, so each of them was summarized
  and its summary printed before it was recorded.
\<close>

theorem processed_only_after_summary:
  assumes "main envs = (acts, P', st)"
  shows "(\<forall>pre post u. acts = pre @ Add u # post \<longrightarrow>
            u \<in> P' \<and>
            (\<exists>pre' t s. pre = pre' @
               [Current_url, Print (processing_line u), Get u, Sleep 2, Find_element, Text,
                Create default_model [\<lparr>role = ''user'', content = prompt t\<rparr>],
                Print (summary_line s)])) \<and>
         (\<forall>u\<in>P'. \<exists>pre t s post. acts = pre @
               [Current_url, Print (processing_line u), Get u, Sleep 2, Find_element, Text,
                Create default_model [\<lparr>role = ''user'', content = prompt t\<rparr>],
                Print (summary_line s), Add u] @ post)"
proof -
  obtain lacts where m: "main_loop {} envs = (lacts, P', st)" and acts: "acts = banner @ lacts"
    using assms by (auto simp: main_def split: prod.splits)
  from main_loop_processed[OF m] have P': "P' = {u. Add u \<in> set lacts}" by simp
  have only: "u \<in> P' \<and>
            (\<exists>pre' t s. pre = pre' @
               [Current_url, Print (processing_line u), Get u, Sleep 2, Find_element, Text,
                Create default_model [\<lparr>role = ''user'', content = prompt t\<rparr>],
                Print (summary_line s)])"
    if split: "acts = pre @ Add u # post" for pre post u
  proof -
    from split acts have "banner @ lacts = pre @ Add u # post" by simp
    with banner_no_Add[of u]
    obtain pre2 where pre: "pre = banner @ pre2" and l: "lacts = pre2 @ Add u # post"
      by (rule append_split_right)
    from l P' have "u \<in> P'" by simp
    moreover from main_loop_Add_pre[OF m l] pre
    have "\<exists>pre' t s. pre = pre' @
               [Current_url, Print (processing_line u), Get u, Sleep 2, Find_element, Text,
                Create default_model [\<lparr>role = ''user'', content = prompt t\<rparr>],
                Print (summary_line s)]"
      by (metis append.assoc)
    ultimately show ?thesis by blast
  qed
  have every: "\<exists>pre t s post. acts = pre @
               [Current_url, Print (processing_line u), Get u, Sleep 2, Find_element, Text,
                Create default_model [\<lparr>role = ''user'', content = prompt t\<rparr>],
                Print (summary_line s), Add u] @ post"
    if "u \<in> P'" for u
  proof -
    from that P' have "Add u \<in> set lacts" by simp
    then obtain pre post where l: "lacts = pre @ Add u # post"
      by (auto dest: split_list)
    from main_loop_Add_pre[OF m l] obtain pre' t s where
      "pre = pre' @ [Current_url, Print (processing_line u), Get u, Sleep 2, Find_element, Text,
                Create default_model [\<lparr>role = ''user'', content = prompt t\<rparr>],
                Print (summary_line s)]"
      by blast
    with l acts have "acts = (banner @ pre') @
               [Current_url, Print (processing_line u), Get u, Sleep 2, Find_element, Text,
                Create default_model [\<lparr>role = ''user'', content = prompt t\<rparr>],
                Print (summary_line s), Add u] @ post"
      by simp
    then show ?thesis by blast
  qed
  from only every show ?thesis by blast
qed

theorem processed_only_after_summary_witness:
  "main [ok_env ''about:blank'' ''t0'' ''s0'', ok_env ''https://x.test/p1'' ''hello'' ''s1'']
     = (banner @
        [Current_url, Sleep 5,
         Current_url, Print (processing_line ''https://x.test/p1''), Get ''https://x.test/p1'',
         Sleep 2, Find_element, Text,
         Create default_model [\<lparr>role = ''user'', content = prompt ''hello''\<rparr>],
         Print (summary_line ''s1''), Add ''https://x.test/p1'', Sleep 5],
        {''https://x.test/p1''}, Running)
   \<and> ''https://x.test/p1'' \<in> {''https://x.test/p1''}
   \<and> (\<exists>pre t s post.
        banner @
        [Current_url, Sleep 5,
         Current_url, Print (processing_line ''https://x.test/p1''), Get ''https://x.test/p1'',
         Sleep 2, Find_element, Text,
         Create default_model [\<lparr>role = ''user'', content = prompt ''hello''\<rparr>],
         Print (summary_line ''s1''), Add ''https://x.test/p1'', Sleep 5]
        = pre @
          [Current_url, Print (processing_line ''https://x.test/p1''), Get ''https://x.test/p1'',
           Sleep 2, Find_element, Text,
           Create default_model [\<lparr>role = ''user'', content = prompt t\<rparr>],
           Print (summary_line s), Add ''https://x.test/p1''] @ post)"
proof -
  let ?A = "''https://x.test/p1''"
  have 1: "main [ok_env ''about:blank'' ''t0'' ''s0'', ok_env ?A ''hello'' ''s1'']
     = (banner @
        [Current_url, Sleep 5,
         Current_url, Print (processing_line ?A), Get ?A, Sleep 2, Find_element, Text,
         Create default_model [\<lparr>role = ''user'', content = prompt ''hello''\<rparr>],
         Print (summary_line ''s1''), Add ?A, Sleep 5],
        {?A}, Running)"
    by (simp add: main_def tick_def ok_env_def extract_text_from_url_def summarize_text_def
          sleep_continue_def)
  have 2: "?A \<in> {?A}" by simp
  from processed_only_after_summary[OF 1] 2 1 show ?thesis by blast
qed

text \<open>
  C6 (transient failures are contained). An exception raised by the address read, by the
  extraction or by the summarization is caught in the iteration: its message is printed,
  the iteration sleeps five seconds, and \<^verbatim>\<open>processed_urls\<close> is unchanged. An iteration
  leaves the loop only with a KeyboardInterrupt that one of its calls raised; a loop whose
  calls are never interrupted is still running after any number of iterations, and has
  read the address once per iteration.
\<close>

theorem transient_failures_contained:
  "(r_current_url env = Raises (Exception e) \<longrightarrow>
      tick P env = ([Current_url, Print (url_error_line e), Sleep 5], P, sleep_control env))
   \<and> (r_current_url env = Returns u \<and> u \<noteq> [] \<and> \<not> prefix ''about:'' u \<and> u \<notin> P \<and>
       extract_text_from_url u env = (ex, Raises (Exception e)) \<longrightarrow>
      tick P env =
        ([Current_url, Print (processing_line u)] @ ex @ [Print (extract_error_line u e), Sleep 5],
         P, sleep_control env))
   \<and> (r_current_url env = Returns u \<and> u \<noteq> [] \<and> \<not> prefix ''about:'' u \<and> u \<notin> P \<and>
       extract_text_from_url u env = (ex, Returns t) \<and>
       summarize_text t default_model env = (su, Raises (Exception e)) \<longrightarrow>
      tick P env =
        ([Current_url, Print (processing_line u)] @ ex @ su @ [Print (summarize_error_line e), Sleep 5],
         P, sleep_control env))
   \<and> (tick P env = (acts, P', c) \<longrightarrow>
        c = Continue \<or> c = Propagate KeyboardInterrupt \<and> \<not> interrupt_free env)
   \<and> (main_loop P envs = (lacts, Q, st) \<longrightarrow>
        (st = Running \<and> count_list lacts Current_url = length envs) \<or>
        (st = Exited KeyboardInterrupt \<and> (\<exists>env\<in>set envs. \<not> interrupt_free env)))"
proof -
  have "tick P env =
        ([Current_url, Print (processing_line u)] @ ex @ su @ [Print (summarize_error_line e), Sleep 5],
         P, sleep_control env)"
    if "r_current_url env = Returns u" "u \<noteq> []" "\<not> prefix ''about:'' u" "u \<notin> P"
       "extract_text_from_url u env = (ex, Returns t)"
       "summarize_text t default_model env = (su, Raises (Exception e))"
    using tick_summarize_Exception[OF that] extract_Returns[OF that(5)] summarize_fst[OF that(6)]
    by simp
  then show ?thesis
    using tick_url_Exception tick_extract_Exception tick_control main_loop_status by blast
qed


theorem transient_failures_contained_witness:
  "tick {} ((ok_env ''https://x.test/p1'' ''t'' ''s'')\<lparr>r_current_url := Raises (Exception ''session gone'')\<rparr>)
     = ([Current_url, Print (url_error_line ''session gone''), Sleep 5], {}, Continue)
   \<and> tick {} ((ok_env ''https://x.test/p1'' ''t'' ''s'')\<lparr>r_get := Raises (Exception ''timeout'')\<rparr>)
     = ([Current_url, Print (processing_line ''https://x.test/p1''), Get ''https://x.test/p1'',
         Print (extract_error_line ''https://x.test/p1'' ''timeout''), Sleep 5], {}, Continue)
   \<and> tick {} ((ok_env ''https://x.test/p1'' ''t'' ''s'')\<lparr>r_create := Raises (Exception ''rate limit'')\<rparr>)
     = ([Current_url, Print (processing_line ''https://x.test/p1''), Get ''https://x.test/p1'',
         Sleep 2, Find_element, Text,
         Create default_model [\<lparr>role = ''user'', content = prompt ''t''\<rparr>],
         Print (summarize_error_line ''rate limit''), Sleep 5], {}, Continue)
   \<and> snd (snd (main_loop {}
        [(ok_env ''https://x.test/p1'' ''t'' ''s'')\<lparr>r_current_url := Raises (Exception ''session gone'')\<rparr>,
         (ok_env ''https://x.test/p1'' ''t'' ''s'')\<lparr>r_get := Raises (Exception ''timeout'')\<rparr>,
         (ok_env ''https://x.test/p1'' ''t'' ''s'')\<lparr>r_create := Raises (Exception ''rate limit'')\<rparr>]))
     = Running"
proof -
  let ?A = "''https://x.test/p1''"
  let ?e1 = "(ok_env ?A ''t'' ''s'')\<lparr>r_current_url := Raises (Exception ''session gone'')\<rparr>"
  let ?e2 = "(ok_env ?A ''t'' ''s'')\<lparr>r_get := Raises (Exception ''timeout'')\<rparr>"
  let ?e3 = "(ok_env ?A ''t'' ''s'')\<lparr>r_create := Raises (Exception ''rate limit'')\<rparr>"
  have sc: "sleep_control ?e1 = Continue" "sleep_control ?e2 = Continue" "sleep_control ?e3 = Continue"
    by (simp_all add: sleep_control_def ok_env_def)
  have free: "interrupt_free ?e1" "interrupt_free ?e2" "interrupt_free ?e3"
    by (simp_all add: interrupt_free_def ok_env_def)
  have u1: "r_current_url ?e1 = Raises (Exception ''session gone'')"
    by (simp add: ok_env_def)
  have u2: "r_current_url ?e2 = Returns ?A \<and> ?A \<noteq> [] \<and> \<not> prefix ''about:'' ?A \<and> ?A \<notin> {} \<and>
       extract_text_from_url ?A ?e2 = ([Get ?A], Raises (Exception ''timeout''))"
    by (simp add: ok_env_def extract_text_from_url_def)
  have u3: "r_current_url ?e3 = Returns ?A \<and> ?A \<noteq> [] \<and> \<not> prefix ''about:'' ?A \<and> ?A \<notin> {} \<and>
       extract_text_from_url ?A ?e3 = ([Get ?A, Sleep 2, Find_element, Text], Returns ''t'') \<and>
       summarize_text ''t'' default_model ?e3
         = ([Create default_model [\<lparr>role = ''user'', content = prompt ''t''\<rparr>]],
            Raises (Exception ''rate limit''))"
    by (simp add: ok_env_def extract_text_from_url_def summarize_text_def)
  obtain lacts Q st where m: "main_loop {} [?e1, ?e2, ?e3] = (lacts, Q, st)"
    by (cases "main_loop {} [?e1, ?e2, ?e3]") auto
  have t1: "tick {} ?e1 = ([Current_url, Print (url_error_line ''session gone''), Sleep 5], {}, Continue)"
    using transient_failures_contained[of ?e1 "''session gone''" "{}"] u1 sc by simp
  have t2: "tick {} ?e2 = ([Current_url, Print (processing_line ?A), Get ?A,
         Print (extract_error_line ?A ''timeout''), Sleep 5], {}, Continue)"
    using transient_failures_contained[of ?e2 "''timeout''" "{}" ?A "[Get ?A]"] u2 sc by simp
  have t3: "tick {} ?e3 = ([Current_url, Print (processing_line ?A), Get ?A,
         Sleep 2, Find_element, Text,
         Create default_model [\<lparr>role = ''user'', content = prompt ''t''\<rparr>],
         Print (summarize_error_line ''rate limit''), Sleep 5], {}, Continue)"
    using transient_failures_contained[of ?e3 "''rate limit''" "{}" ?A
        "[Get ?A, Sleep 2, Find_element, Text]" "''t''"
        "[Create default_model [\<lparr>role = ''user'', content = prompt ''t''\<rparr>]]"] u3 sc by simp
  have "st = Running"
    using transient_failures_contained[of ?e1 "''session gone''" "{}" ?A "[]" "''t''" "[]" "[]" "{}"
        Continue "[?e1, ?e2, ?e3]" lacts Q st] m free by auto
  with m t1 t2 t3 show ?thesis by simp
qed

text \<open>
  C7 (extraction on the current address). The claim says that the extraction reads the
  page without the program navigating. In the source \<^verbatim>\<open>extract_text_from_url\<close> opens its
  argument with \<^verbatim>\<open>driver.get(url)\<close> before it reads the body: already the first action of
  an extraction is a navigation.
\<close>

theorem passive_extraction_counterexample:
  "extract_text_from_url ''https://x.test/p1'' (ok_env ''https://x.test/p1'' ''hello'' ''s1'')
     = ([Get ''https://x.test/p1'', Sleep 2, Find_element, Text], Returns ''hello'')
   \<and> is_Get (hd (fst (extract_text_from_url ''https://x.test/p1''
                        (ok_env ''https://x.test/p1'' ''hello'' ''s1''))))"
  by (simp add: extract_text_from_url_def ok_env_def)

text \<open>
  C7 as amended. The loop calls \<^verbatim>\<open>driver.get\<close> only on the address that the same iteration
  has just read as the browser's current address, and only when that address is not
  empty, does not start with \<^verbatim>\<open>about:\<close> and is not yet processed. An extraction begins by
  calling \<^verbatim>\<open>driver.get\<close> on its argument, and after that only sleeps two seconds, finds
  the body element and reads its text: it navigates once, to the address it was given.
\<close>

theorem extraction_reloads_current_address:
  "(tick P env = (acts, P', c) \<and> Get u \<in> set acts \<longrightarrow>
      r_current_url env = Returns u \<and> u \<noteq> [] \<and> \<not> prefix ''about:'' u \<and> u \<notin> P)
   \<and> (\<exists>rest. fst (extract_text_from_url url env) = Get url # rest \<and>
          set rest \<subseteq> {Sleep 2, Find_element, Text})"
  using tick_Get[of P env acts P' c u] extract_shape[of url env] by blast

theorem extraction_reloads_current_address_witness:
  "tick {} (ok_env ''https://x.test/p1'' ''hello'' ''s1'')
     = ([Current_url, Print (processing_line ''https://x.test/p1''), Get ''https://x.test/p1'',
         Sleep 2, Find_element, Text,
         Create default_model [\<lparr>role = ''user'', content = prompt ''hello''\<rparr>],
         Print (summary_line ''s1''), Add ''https://x.test/p1'', Sleep 5],
        {''https://x.test/p1''}, Continue)
   \<and> r_current_url (ok_env ''https://x.test/p1'' ''hello'' ''s1'') = Returns ''https://x.test/p1''
   \<and> ''https://x.test/p1'' \<notin> {}"
proof -
  let ?A = "''https://x.test/p1''"
  let ?env = "ok_env ?A ''hello'' ''s1''"
  have 1: "tick {} ?env
     = ([Current_url, Print (processing_line ?A), Get ?A, Sleep 2, Find_element, Text,
         Create default_model [\<lparr>role = ''user'', content = prompt ''hello''\<rparr>],
         Print (summary_line ''s1''), Add ?A, Sleep 5],
        {?A}, Continue)"
    by (simp add: tick_def ok_env_def extract_text_from_url_def summarize_text_def
          sleep_continue_def)
  have 2: "Get ?A \<in> set [Current_url, Print (processing_line ?A), Get ?A, Sleep 2, Find_element, Text,
         Create default_model [\<lparr>role = ''user'', content = prompt ''hello''\<rparr>],
         Print (summary_line ''s1''), Add ?A, Sleep 5]"
    by simp
  from extraction_reloads_current_address[of "{}" ?env _ "{?A}" Continue ?A] 1 2
  have "r_current_url ?env = Returns ?A \<and> ?A \<notin> {}" by blast
  with 1 show ?thesis by blast
qed

text \<open>
  C8 (interrupt shutdown). The claim lets the interrupt arrive at any point of the loop
  and says that the interrupted iteration adds no address. An interrupt that arrives in
  the five-second sleep ending an iteration that has just summarized finds the summary
  printed and the address already added by that iteration.
\<close>

theorem interrupt_shutdown_counterexample:
  "main [(ok_env ''https://x.test/p1'' ''hello'' ''s1'')\<lparr>r_sleep5 := Sleep_interrupted\<rparr>]
     = (banner @
        [Current_url, Print (processing_line ''https://x.test/p1''), Get ''https://x.test/p1'',
         Sleep 2, Find_element, Text,
         Create default_model [\<lparr>role = ''user'', content = prompt ''hello''\<rparr>],
         Print (summary_line ''s1''), Add ''https://x.test/p1'', Sleep 5],
        {''https://x.test/p1''}, Exited KeyboardInterrupt)"
  by (simp add: main_def tick_def ok_env_def extract_text_from_url_def summarize_text_def
        sleep_continue_def)

text \<open>
  C8 as amended. The loop is running, and a KeyboardInterrupt reaches the next iteration
  at any point: between two of its actions, or in any of the calls it makes (the request
  to the summarizer among them). Then the loop is left with the KeyboardInterrupt, the
  entry point prints \<^verbatim>\<open>Exiting...\<close> and calls \<^verbatim>\<open>driver.quit\<close>, and that is the only call of
  \<^verbatim>\<open>driver.quit\<close> in the run. The interrupted iteration has performed an initial part of
  its actions. A summary line among them is the whole line for a summary that the
  summarizer had returned, so an interrupt before the summarizer returns leaves no summary.
  \<^verbatim>\<open>processed_urls\<close> has grown by the addresses added in that part only, and an addition is
  there only directly after the summary line: the interrupted iteration has added its
  address only when the interrupt came after \<^verbatim>\<open>processed_urls.add\<close>.
\<close>

theorem interrupt_releases_session:
  assumes "\<forall>e\<in>set envs. interrupt_free e"
    and "main envs = (a0, Q, st)"
    and "tick Q env = (a1, Q1, c)"
    and "k < length a1 \<or> (\<exists>a\<in>set a1. interrupts env a)"
  shows "\<exists>a1' P'.
           main_async envs env k = (a0 @ a1', P', Exited KeyboardInterrupt) \<and>
           entry_point (main_async envs env k) = a0 @ a1' @ [Print ''Exiting...'', Quit] \<and>
           count_list (entry_point (main_async envs env k)) Quit = 1 \<and>
           prefix a1' a1 \<and>
           P' = Q \<union> {u. Add u \<in> set a1'} \<and>
           (\<forall>s. Print (summary_line s) \<in> set a1' \<longrightarrow>
              (\<exists>u t. r_current_url env = Returns u \<and>
                 snd (extract_text_from_url u env) = Returns t \<and>
                 snd (summarize_text t default_model env) = Returns s)) \<and>
           (\<forall>pre post u. a1' = pre @ Add u # post \<longrightarrow>
              (\<exists>t s. pre = [Current_url, Print (processing_line u), Get u, Sleep 2, Find_element,
                              Text, Create default_model [\<lparr>role = ''user'', content = prompt t\<rparr>],
                              Print (summary_line s)]))"
proof -
  from main_interrupt_free[OF assms(1,2)] have st: "st = Running" and q0: "Quit \<notin> set a0"
    by simp_all
  from tick_async_interrupted[OF assms(3,4)] obtain a1' where
    ta: "tick_async k Q env = (a1', Q \<union> {u. Add u \<in> set a1'}, Propagate KeyboardInterrupt)"
    and pre: "prefix a1' a1"
    by blast
  let ?P' = "Q \<union> {u. Add u \<in> set a1'}"
  from assms(2) st ta have run: "main_async envs env k = (a0 @ a1', ?P', Exited KeyboardInterrupt)"
    by (simp add: main_async_def)
  then have entry: "entry_point (main_async envs env k) = a0 @ a1' @ [Print ''Exiting...'', Quit]"
    by (simp add: entry_point_def)
  from pre have sub: "set a1' \<subseteq> set a1" by (rule set_mono_prefix)
  with tick_no_Quit[OF assms(3)] have "Quit \<notin> set a1'" by blast
  with q0 have "count_list (a0 @ a1') Quit = 0" by (simp add: count_list_0_iff)
  with entry have once: "count_list (entry_point (main_async envs env k)) Quit = 1" by simp
  have summ: "\<exists>u t. r_current_url env = Returns u \<and>
                 snd (extract_text_from_url u env) = Returns t \<and>
                 snd (summarize_text t default_model env) = Returns s"
    if "Print (summary_line s) \<in> set a1'" for s
    using tick_summary_printed[OF assms(3)] that sub by blast
  have add: "\<exists>t s. pre = [Current_url, Print (processing_line u), Get u, Sleep 2, Find_element,
                              Text, Create default_model [\<lparr>role = ''user'', content = prompt t\<rparr>],
                              Print (summary_line s)]"
    if "a1' = pre @ Add u # post" for pre post u
    using tick_prefix_Add_pre[OF assms(3) pre that] .
  from run entry once pre summ add show ?thesis by blast
qed


theorem interrupt_releases_session_witness:
  "interrupt_free (ok_env ''about:blank'' ''t0'' ''s0'')
   \<and> interrupts ((ok_env ''https://x.test/p1'' ''hello'' ''s1'')\<lparr>r_create := Raises KeyboardInterrupt\<rparr>)
         (Create default_model [\<lparr>role = ''user'', content = prompt ''hello''\<rparr>])
   \<and> main_async [ok_env ''about:blank'' ''t0'' ''s0'']
         ((ok_env ''https://x.test/p1'' ''hello'' ''s1'')\<lparr>r_create := Raises KeyboardInterrupt\<rparr>) 100
       = (banner @
          [Current_url, Sleep 5,
           Current_url, Print (processing_line ''https://x.test/p1''), Get ''https://x.test/p1'',
           Sleep 2, Find_element, Text,
           Create default_model [\<lparr>role = ''user'', content = prompt ''hello''\<rparr>]],
          {}, Exited KeyboardInterrupt)
   \<and> entry_point (main_async [ok_env ''about:blank'' ''t0'' ''s0'']
         ((ok_env ''https://x.test/p1'' ''hello'' ''s1'')\<lparr>r_create := Raises KeyboardInterrupt\<rparr>) 100)
       = banner @
         [Current_url, Sleep 5,
          Current_url, Print (processing_line ''https://x.test/p1''), Get ''https://x.test/p1'',
          Sleep 2, Find_element, Text,
          Create default_model [\<lparr>role = ''user'', content = prompt ''hello''\<rparr>],
          Print ''Exiting...'', Quit]
   \<and> count_list (entry_point (main_async [ok_env ''about:blank'' ''t0'' ''s0'']
         ((ok_env ''https://x.test/p1'' ''hello'' ''s1'')\<lparr>r_create := Raises KeyboardInterrupt\<rparr>) 100))
         Quit = 1
   \<and> main_async [ok_env ''about:blank'' ''t0'' ''s0''] (ok_env ''https://x.test/p1'' ''hello'' ''s1'') 8
       = (banner @
          [Current_url, Sleep 5,
           Current_url, Print (processing_line ''https://x.test/p1''), Get ''https://x.test/p1'',
           Sleep 2, Find_element, Text,
           Create default_model [\<lparr>role = ''user'', content = prompt ''hello''\<rparr>],
           Print (summary_line ''s1'')],
          {}, Exited KeyboardInterrupt)
   \<and> count_list (entry_point (main_async [ok_env ''about:blank'' ''t0'' ''s0'']
         (ok_env ''https://x.test/p1'' ''hello'' ''s1'') 8)) Quit = 1"
proof -
  let ?A = "''https://x.test/p1''"
  let ?envs = "[ok_env ''about:blank'' ''t0'' ''s0'']"
  let ?env = "(ok_env ?A ''hello'' ''s1'')\<lparr>r_create := Raises KeyboardInterrupt\<rparr>"
  let ?env' = "ok_env ?A ''hello'' ''s1''"
  let ?req = "Create default_model [\<lparr>role = ''user'', content = prompt ''hello''\<rparr>]"
  let ?a1 = "[Current_url, Print (processing_line ?A), Get ?A, Sleep 2, Find_element, Text, ?req]"
  let ?b1 = "[Current_url, Print (processing_line ?A), Get ?A, Sleep 2, Find_element, Text, ?req,
              Print (summary_line ''s1''), Add ?A, Sleep 5]"
  have free: "interrupt_free (ok_env ''about:blank'' ''t0'' ''s0'')"
    by (simp add: interrupt_free_def ok_env_def)
  then have 1: "\<forall>e\<in>set ?envs. interrupt_free e" by simp
  have 2: "main ?envs = (banner @ [Current_url, Sleep 5], {}, Running)"
    by (simp add: main_def tick_def ok_env_def sleep_continue_def)
  have 3: "tick {} ?env = (?a1, {}, Propagate KeyboardInterrupt)"
    by (simp add: tick_def ok_env_def extract_text_from_url_def summarize_text_def)
  have int: "interrupts ?env ?req" by (simp add: ok_env_def)
  then have 4: "100 < length ?a1 \<or> (\<exists>a\<in>set ?a1. interrupts ?env a)" by simp
  have 5: "tick {} ?env' = (?b1, {?A}, Continue)"
    by (simp add: tick_def ok_env_def extract_text_from_url_def summarize_text_def
          sleep_continue_def)
  have 6: "8 < length ?b1 \<or> (\<exists>a\<in>set ?b1. interrupts ?env' a)" by simp
  have run: "main_async ?envs ?env 100
       = (banner @ [Current_url, Sleep 5, Current_url, Print (processing_line ?A), Get ?A,
                    Sleep 2, Find_element, Text, ?req],
          {}, Exited KeyboardInterrupt)"
    using 2 3 by (simp add: main_async_def tick_async_def)
  have run': "main_async ?envs ?env' 8
       = (banner @ [Current_url, Sleep 5, Current_url, Print (processing_line ?A), Get ?A,
                    Sleep 2, Find_element, Text, ?req, Print (summary_line ''s1'')],
          {}, Exited KeyboardInterrupt)"
    using 2 5 by (simp add: main_async_def tick_async_def)
  from interrupt_releases_session[OF 1 2 3 4] obtain a1' P' where
    m: "main_async ?envs ?env 100 = ((banner @ [Current_url, Sleep 5]) @ a1', P', Exited KeyboardInterrupt)"
    and e: "entry_point (main_async ?envs ?env 100)
              = (banner @ [Current_url, Sleep 5]) @ a1' @ [Print ''Exiting...'', Quit]"
    and c: "count_list (entry_point (main_async ?envs ?env 100)) Quit = 1"
    by blast
  from m run have "a1' = ?a1" by simp
  with e have e2: "entry_point (main_async ?envs ?env 100)
       = banner @ [Current_url, Sleep 5, Current_url, Print (processing_line ?A), Get ?A,
                   Sleep 2, Find_element, Text, ?req, Print ''Exiting...'', Quit]"
    by simp
  from interrupt_releases_session[OF 1 2 5 6]
  have c': "count_list (entry_point (main_async ?envs ?env' 8)) Quit = 1"
    by blast
  from free int run e2 c run' c' show ?thesis by simp
qed

text \<open>
  C9 (exact-string deduplication). \<^verbatim>\<open>processed_urls\<close> is consulted by equality of the
  address as read. Two different addresses, however alike, are processed independently:
  observed one after the other with every call succeeding, each is announced, extracted,
  summarized and recorded.
\<close>

theorem distinct_addresses_both_summarized:
  assumes "A \<noteq> B"
    and "r_current_url eA = Returns A" and "A \<noteq> []" and "\<not> prefix ''about:'' A" and "A \<notin> P"
    and "r_current_url eB = Returns B" and "B \<noteq> []" and "\<not> prefix ''about:'' B" and "B \<notin> P"
    and "succeeds eA" and "succeeds eB"
  shows "\<exists>tA sA tB sB.
           main_loop P [eA, eB] =
             ([Current_url, Print (processing_line A), Get A, Sleep 2, Find_element, Text,
               Create default_model [\<lparr>role = ''user'', content = prompt tA\<rparr>],
               Print (summary_line sA), Add A, Sleep 5,
               Current_url, Print (processing_line B), Get B, Sleep 2, Find_element, Text,
               Create default_model [\<lparr>role = ''user'', content = prompt tB\<rparr>],
               Print (summary_line sB), Add B, Sleep 5],
              insert B (insert A P), Running)"
proof -
  from tick_succeeds_new[OF assms(10) assms(2-5)] obtain tA sA where
    kA: "tick P eA =
             ([Current_url, Print (processing_line A), Get A, Sleep 2, Find_element, Text,
               Create default_model [\<lparr>role = ''user'', content = prompt tA\<rparr>],
               Print (summary_line sA), Add A, Sleep 5],
              insert A P, Continue)"
    by blast
  from assms(1,9) have "B \<notin> insert A P" by auto
  from tick_succeeds_new[OF assms(11) assms(6-8) this] obtain tB sB where
    kB: "tick (insert A P) eB =
             ([Current_url, Print (processing_line B), Get B, Sleep 2, Find_element, Text,
               Create default_model [\<lparr>role = ''user'', content = prompt tB\<rparr>],
               Print (summary_line sB), Add B, Sleep 5],
              insert B (insert A P), Continue)"
    by blast
  from kA kB have "main_loop P [eA, eB] =
             ([Current_url, Print (processing_line A), Get A, Sleep 2, Find_element, Text,
               Create default_model [\<lparr>role = ''user'', content = prompt tA\<rparr>],
               Print (summary_line sA), Add A, Sleep 5,
               Current_url, Print (processing_line B), Get B, Sleep 2, Find_element, Text,
               Create default_model [\<lparr>role = ''user'', content = prompt tB\<rparr>],
               Print (summary_line sB), Add B, Sleep 5],
              insert B (insert A P), Running)"
    by simp
  then show ?thesis by blast
qed

theorem distinct_addresses_both_summarized_witness:
  "''https://x.test/p'' \<noteq> ''https://x.test/p/''
   \<and> succeeds (ok_env ''https://x.test/p'' ''text'' ''sum1'')
   \<and> succeeds (ok_env ''https://x.test/p/'' ''text'' ''sum2'')
   \<and> main_loop {} [ok_env ''https://x.test/p'' ''text'' ''sum1'', ok_env ''https://x.test/p/'' ''text'' ''sum2'']
      = ([Current_url, Print (processing_line ''https://x.test/p''), Get ''https://x.test/p'',
          Sleep 2, Find_element, Text,
          Create default_model [\<lparr>role = ''user'', content = prompt ''text''\<rparr>],
          Print (summary_line ''sum1''), Add ''https://x.test/p'', Sleep 5,
          Current_url, Print (processing_line ''https://x.test/p/''), Get ''https://x.test/p/'',
          Sleep 2, Find_element, Text,
          Create default_model [\<lparr>role = ''user'', content = prompt ''text''\<rparr>],
          Print (summary_line ''sum2''), Add ''https://x.test/p/'', Sleep 5],
         {''https://x.test/p/'', ''https://x.test/p''}, Running)"
proof -
  let ?A = "''https://x.test/p''" and ?B = "''https://x.test/p/''"
  let ?eA = "ok_env ?A ''text'' ''sum1''" and ?eB = "ok_env ?B ''text'' ''sum2''"
  have 1: "?A \<noteq> ?B" by simp
  have 2: "r_current_url ?eA = Returns ?A" by (simp add: ok_env_def)
  have 3: "?A \<noteq> []" by simp
  have 4: "\<not> prefix ''about:'' ?A" by simp
  have 5: "?A \<notin> {}" by simp
  have 6: "r_current_url ?eB = Returns ?B" by (simp add: ok_env_def)
  have 7: "?B \<noteq> []" by simp
  have 8: "\<not> prefix ''about:'' ?B" by simp
  have 9: "?B \<notin> {}" by simp
  have 10: "succeeds ?eA" by (simp add: ok_env_def succeeds_def)
  have 11: "succeeds ?eB" by (simp add: ok_env_def succeeds_def)
  from distinct_addresses_both_summarized[OF 1 2 3 4 5 6 7 8 9 10 11]
  obtain tA sA tB sB where
    m: "main_loop {} [?eA, ?eB] =
             ([Current_url, Print (processing_line ?A), Get ?A, Sleep 2, Find_element, Text,
               Create default_model [\<lparr>role = ''user'', content = prompt tA\<rparr>],
               Print (summary_line sA), Add ?A, Sleep 5,
               Current_url, Print (processing_line ?B), Get ?B, Sleep 2, Find_element, Text,
               Create default_model [\<lparr>role = ''user'', content = prompt tB\<rparr>],
               Print (summary_line sB), Add ?B, Sleep 5],
              {?B, ?A}, Running)"
    by blast
  have e: "main_loop {} [?eA, ?eB] =
             ([Current_url, Print (processing_line ?A), Get ?A, Sleep 2, Find_element, Text,
               Create default_model [\<lparr>role = ''user'', content = prompt ''text''\<rparr>],
               Print (summary_line ''sum1''), Add ?A, Sleep 5,
               Current_url, Print (processing_line ?B), Get ?B, Sleep 2, Find_element, Text,
               Create default_model [\<lparr>role = ''user'', content = prompt ''text''\<rparr>],
               Print (summary_line ''sum2''), Add ?B, Sleep 5],
              {?B, ?A}, Running)"
    by (simp add: tick_def ok_env_def extract_text_from_url_def summarize_text_def
          sleep_continue_def)
  from m e 1 10 11 show ?thesis by simp
qed

text \<open>
  C10 (fixed summarization request). Every call of \<^verbatim>\<open>client.chat.completions.create\<close>
  that the loop makes has model \<^verbatim>\<open>gpt-4\<close> and exactly one message, of role \<^verbatim>\<open>user\<close>,
  whose content is \<^verbatim>\<open>Summarize this text:\<close>, a newline, and the text that the extraction
  returned for the current address of that iteration.
\<close>

theorem summarization_request_shape:
  assumes "main_loop P envs = (acts, P', st)" and "Create m msgs \<in> set acts"
  shows "m = ''gpt-4'' \<and>
         (\<exists>env\<in>set envs. \<exists>u t. r_current_url env = Returns u \<and>
            snd (extract_text_from_url u env) = Returns t \<and>
            msgs = [\<lparr>role = ''user'', content = ''Summarize this text:'' @ [CHR 0x0A] @ t\<rparr>])"
proof -
  from main_loop_action[OF assms] obtain env Q a1 Q' c where
    env: "env \<in> set envs" and t: "tick Q env = (a1, Q', c)" and a: "Create m msgs \<in> set a1"
    by blast
  from tick_Create[OF t a] obtain u tx where
    "m = default_model" "r_current_url env = Returns u"
    "extract_text_from_url u env = ([Get u, Sleep 2, Find_element, Text], Returns tx)"
    "msgs = [\<lparr>role = ''user'', content = prompt tx\<rparr>]"
    by blast
  with env show ?thesis
    by (auto simp: default_model_def prompt_def intro!: bexI[of _ env])
qed

theorem summarization_request_shape_witness:
  "main_loop {} [ok_env ''https://x.test/p1'' ''hello'' ''s1'']
     = ([Current_url, Print (processing_line ''https://x.test/p1''), Get ''https://x.test/p1'',
         Sleep 2, Find_element, Text,
         Create ''gpt-4'' [\<lparr>role = ''user'', content = ''Summarize this text:'' @ [CHR 0x0A] @ ''hello''\<rparr>],
         Print (summary_line ''s1''), Add ''https://x.test/p1'', Sleep 5],
        {''https://x.test/p1''}, Running)
   \<and> (\<exists>u t. r_current_url (ok_env ''https://x.test/p1'' ''hello'' ''s1'') = Returns u \<and>
         snd (extract_text_from_url u (ok_env ''https://x.test/p1'' ''hello'' ''s1'')) = Returns t \<and>
         [\<lparr>role = ''user'', content = ''Summarize this text:'' @ [CHR 0x0A] @ ''hello''\<rparr>]
           = [\<lparr>role = ''user'', content = ''Summarize this text:'' @ [CHR 0x0A] @ t\<rparr>])"
proof -
  have 1: "main_loop {} [ok_env ''https://x.test/p1'' ''hello'' ''s1'']
     = ([Current_url, Print (processing_line ''https://x.test/p1''), Get ''https://x.test/p1'',
         Sleep 2, Find_element, Text,
         Create ''gpt-4'' [\<lparr>role = ''user'', content = ''Summarize this text:'' @ [CHR 0x0A] @ ''hello''\<rparr>],
         Print (summary_line ''s1''), Add ''https://x.test/p1'', Sleep 5],
        {''https://x.test/p1''}, Running)"
    by (simp add: tick_def ok_env_def extract_text_from_url_def summarize_text_def
          sleep_continue_def default_model_def prompt_def)
  have 2: "Create ''gpt-4'' [\<lparr>role = ''user'', content = ''Summarize this text:'' @ [CHR 0x0A] @ ''hello''\<rparr>]
     \<in> set [Current_url, Print (processing_line ''https://x.test/p1''), Get ''https://x.test/p1'',
         Sleep 2, Find_element, Text,
         Create ''gpt-4'' [\<lparr>role = ''user'', content = ''Summarize this text:'' @ [CHR 0x0A] @ ''hello''\<rparr>],
         Print (summary_line ''s1''), Add ''https://x.test/p1'', Sleep 5]"
    by simp
  from summarization_request_shape[OF 1 2] 1 show ?thesis by simp
qed

end
